theory Spec2Isabelle
  imports Main "HOL-Library.Word"
begin

unbundle bit_operations_syntax

text \<open>
  A model of \<open>src/service/plugins/telephony.js\<close> of GSConnect: the \<open>SmsURI\<close> class with
  its two regular expressions, and the telephony plugin's \<open>handlePacket\<close> with the
  functions it calls. Exceptions are values of a sum type, what the plugin does to other
  objects is a list of effects, and what it reads from them is a record of parameters.
\<close>

section \<open>JavaScript strings and the built-ins used by telephony.js\<close>

text \<open>
  A JavaScript string is a sequence of UTF-16 code units; a code unit is modelled by its
  number. \<open>S\<close> turns an ASCII literal into such a string.
\<close>

type_synonym jsstring = "nat list"

definition S :: "string \<Rightarrow> jsstring" where
  "S cs = map of_char cs"

text \<open>Truthiness of a value that is a string or \<open>undefined\<close>: only a non-empty string is truthy.\<close>

fun truthy :: "jsstring option \<Rightarrow> bool" where
  "truthy None = False"
| "truthy (Some s) = (s \<noteq> [])"

text \<open>\<open>x || ""\<close> for a string or \<open>undefined\<close>.\<close>

fun or_empty :: "jsstring option \<Rightarrow> jsstring" where
  "or_empty None = []"
| "or_empty (Some s) = s"

text \<open>String concatenation turns \<open>undefined\<close> into the text \<open>undefined\<close>.\<close>

fun ToString :: "jsstring option \<Rightarrow> jsstring" where
  "ToString None = S ''undefined''"
| "ToString (Some s) = s"

text \<open>Decimal rendering of an integer, as \<open>"" + n\<close> gives for an integral Number.\<close>

fun digits10 :: "nat \<Rightarrow> jsstring" where
  "digits10 n = (if n < 10 then [48 + n] else digits10 (n div 10) @ [48 + n mod 10])"

declare digits10.simps [simp del]

definition ToString_int :: "int \<Rightarrow> jsstring" where
  "ToString_int i = (if i < 0 then 45 # digits10 (nat (- i)) else digits10 (nat i))"

text \<open>\<open>s.split(c)\<close> for a one-character separator: always at least one piece.\<close>

fun split :: "nat \<Rightarrow> jsstring \<Rightarrow> jsstring list" where
  "split c [] = [[]]"
| "split c (x # xs) =
     (if x = c then [] # split c xs
      else (case split c xs of [] \<Rightarrow> [[x]] | p # ps \<Rightarrow> (x # p) # ps))"

text \<open>\<open>s.startsWith(p)\<close>.\<close>

fun startsWith :: "jsstring \<Rightarrow> jsstring \<Rightarrow> bool" where
  "startsWith s [] = True"
| "startsWith [] (p # ps) = False"
| "startsWith (x # xs) (p # ps) = (x = p \<and> startsWith xs ps)"

text \<open>\<open>s.replace(/\D/g, "")\<close>: every code unit outside \<open>0\<close>..\<open>9\<close> is removed.\<close>

definition is_digit :: "nat \<Rightarrow> bool" where
  "is_digit u = (48 \<le> u \<and> u \<le> 57)"

definition strip_non_digits :: "jsstring \<Rightarrow> jsstring" where
  "strip_non_digits s = filter is_digit s"

subsection \<open>Hexadecimal digits\<close>

definition hexval :: "nat \<Rightarrow> nat option" where
  "hexval u =
     (if 48 \<le> u \<and> u \<le> 57 then Some (u - 48)
      else if 65 \<le> u \<and> u \<le> 70 then Some (u - 55)
      else if 97 \<le> u \<and> u \<le> 102 then Some (u - 87)
      else None)"

fun hexnum :: "nat \<Rightarrow> jsstring \<Rightarrow> nat option" where
  "hexnum acc [] = Some acc"
| "hexnum acc (u # us) =
     (case hexval u of None \<Rightarrow> None | Some d \<Rightarrow> hexnum (16 * acc + d) us)"

text \<open>The value of exactly \<open>n\<close> hexadecimal digits at the head of \<open>s\<close>, if they are there.\<close>

definition hex_at :: "nat \<Rightarrow> jsstring \<Rightarrow> nat option" where
  "hex_at n s = (if length s < n then None else hexnum 0 (take n s))"

definition hexdigit :: "nat \<Rightarrow> nat" where
  "hexdigit d = (if d < 10 then 48 + d else 55 + d)"

subsection \<open>\<open>unescape\<close> and \<open>escape\<close> (ECMAScript, Annex B)\<close>

function unescape :: "jsstring \<Rightarrow> jsstring" where
  "unescape [] = []"
| "unescape (c # cs) =
     (if c = 37 then
        (case (if startsWith cs [117] then hex_at 4 (drop 1 cs) else None) of
           Some v \<Rightarrow> v # unescape (drop 5 cs)
         | None \<Rightarrow>
             (case hex_at 2 cs of
                Some v \<Rightarrow> v # unescape (drop 2 cs)
              | None \<Rightarrow> c # unescape cs))
      else c # unescape cs)"
  by pat_completeness auto
termination
  by (relation "measure length") auto

definition escape_unreserved :: "nat \<Rightarrow> bool" where
  "escape_unreserved u =
     ((65 \<le> u \<and> u \<le> 90) \<or> (97 \<le> u \<and> u \<le> 122) \<or> (48 \<le> u \<and> u \<le> 57)
      \<or> u \<in> set (S ''@*_+-./''))"

definition escape_unit :: "nat \<Rightarrow> jsstring" where
  "escape_unit u =
     (if escape_unreserved u then [u]
      else if u < 256 then [37, hexdigit (u div 16), hexdigit (u mod 16)]
      else [37, 117, hexdigit (u div 4096 mod 16), hexdigit (u div 256 mod 16),
            hexdigit (u div 16 mod 16), hexdigit (u mod 16)])"

definition escape :: "jsstring \<Rightarrow> jsstring" where
  "escape s = concat (map escape_unit s)"

subsection \<open>\<open>decodeURIComponent\<close>\<close>

datatype error =
    MalformedUri      \<comment> \<open>\<open>URIError("malformed sms URI")\<close>\<close>
  | DuplicateField    \<comment> \<open>\<open>URIError('duplicate "body" field')\<close>\<close>
  | URIMalformed      \<comment> \<open>the \<open>URIError\<close> that \<open>decodeURIComponent\<close> throws\<close>
  | TypeError         \<comment> \<open>a property read or a destructuring of \<open>null\<close>/\<open>undefined\<close>\<close>

text \<open>The number of leading 1 bits of an octet, the length of its UTF-8 sequence.\<close>

definition utf8_len :: "nat \<Rightarrow> nat" where
  "utf8_len b =
     (if b < 128 then 0 else if b < 192 then 1 else if b < 224 then 2
      else if b < 240 then 3 else if b < 248 then 4 else 5)"

text \<open>
  \<open>k\<close> continuation octets \<open>%XX\<close> with top bits \<open>10\<close>, folded into the code point
  accumulated so far.
\<close>

fun utf8_cont :: "nat \<Rightarrow> nat \<Rightarrow> jsstring \<Rightarrow> nat option" where
  "utf8_cont 0 v s = Some v"
| "utf8_cont (Suc k) v s =
     (case s of
        p # s' \<Rightarrow>
          (if p \<noteq> 37 then None
           else (case hex_at 2 s' of
                   None \<Rightarrow> None
                 | Some b \<Rightarrow> if b div 64 \<noteq> 2 then None
                            else utf8_cont k (64 * v + b mod 64) (drop 2 s')))
      | [] \<Rightarrow> None)"

text \<open>Overlong forms, surrogates and values beyond U+10FFFF are not UTF-8.\<close>

definition utf8_valid :: "nat \<Rightarrow> nat \<Rightarrow> bool" where
  "utf8_valid n v =
     (if n = 2 then 128 \<le> v
      else if n = 3 then 2048 \<le> v \<and> \<not> (55296 \<le> v \<and> v \<le> 57343)
      else 65536 \<le> v \<and> v \<le> 1114111)"

definition utf16_units :: "nat \<Rightarrow> jsstring" where
  "utf16_units v =
     (if v < 65536 then [v]
      else [55296 + (v - 65536) div 1024, 56320 + (v - 65536) mod 1024])"

function decodeURIComponent :: "jsstring \<Rightarrow> error + jsstring" where
  "decodeURIComponent [] = Inr []"
| "decodeURIComponent (c # cs) =
     (if c \<noteq> 37 then map_sum id ((#) c) (decodeURIComponent cs)
      else (case hex_at 2 cs of
              None \<Rightarrow> Inl URIMalformed
            | Some b \<Rightarrow>
                (let n = utf8_len b in
                 if n = 0 then map_sum id ((#) b) (decodeURIComponent (drop 2 cs))
                 else if n = 1 \<or> 4 < n then Inl URIMalformed
                 else (case utf8_cont (n - 1) (b mod 2 ^ (7 - n)) (drop 2 cs) of
                         None \<Rightarrow> Inl URIMalformed
                       | Some v \<Rightarrow>
                           if utf8_valid n v
                           then map_sum id ((@) (utf16_units v))
                                  (decodeURIComponent (drop (2 + 3 * (n - 1)) cs))
                           else Inl URIMalformed))))"
  by pat_completeness auto
termination
  by (relation "measure length") auto

section \<open>Regular expressions\<close>

text \<open>
  The two patterns of telephony.js are written as syntax trees and run by a backtracking
  matcher that returns, in the order a JavaScript engine tries them, every way the pattern
  can match at the current position; the first one is the engine's match.
\<close>

datatype citem = C char | R char char

fun in_item :: "nat \<Rightarrow> citem \<Rightarrow> bool" where
  "in_item u (C c) = (u = of_char c)"
| "in_item u (R lo hi) = (of_char lo \<le> u \<and> u \<le> of_char hi)"

datatype rx =
    Cls "citem list"   \<comment> \<open>a character class \<open>[...]\<close>\<close>
  | Lit string         \<comment> \<open>literal characters\<close>
  | Seq rx rx
  | Alt rx rx          \<comment> \<open>\<open>a|b\<close>, \<open>a\<close> tried first\<close>
  | Star rx            \<comment> \<open>greedy \<open>r*\<close>\<close>
  | Grp nat rx         \<comment> \<open>capturing group number \<open>n\<close>\<close>
  | NotAhead rx        \<comment> \<open>\<open>(?!r)\<close>\<close>
  | Bos                \<comment> \<open>\<open>^\<close>\<close>
  | Eos                \<comment> \<open>\<open>$\<close>\<close>

record mstate =
  pos :: nat
  rest :: jsstring
  caps :: "nat \<rightharpoonup> jsstring"

fun strip_prefix :: "jsstring \<Rightarrow> jsstring \<Rightarrow> jsstring option" where
  "strip_prefix [] s = Some s"
| "strip_prefix (p # ps) [] = None"
| "strip_prefix (p # ps) (x # xs) = (if p = x then strip_prefix ps xs else None)"

function rxm :: "rx \<Rightarrow> mstate \<Rightarrow> mstate list" where
  "rxm (Cls items) st =
     (case rest st of
        [] \<Rightarrow> []
      | u # us \<Rightarrow> if \<exists>i \<in> set items. in_item u i
                 then [st\<lparr>pos := Suc (pos st), rest := us\<rparr>] else [])"
| "rxm (Lit l) st =
     (case strip_prefix (S l) (rest st) of
        None \<Rightarrow> []
      | Some us \<Rightarrow> [st\<lparr>pos := pos st + length l, rest := us\<rparr>])"
| "rxm (Seq a b) st = concat (map (rxm b) (rxm a st))"
| "rxm (Alt a b) st = rxm a st @ rxm b st"
| "rxm (Star r) st =
     concat (map (\<lambda>st'. if length (rest st') < length (rest st)
                          then rxm (Star r) st' else [])
                 (rxm r st)) @ [st]"
| "rxm (Grp n r) st =
     map (\<lambda>st'. st'\<lparr>caps := (caps st')(n \<mapsto> take (pos st' - pos st) (rest st))\<rparr>)
         (rxm r st)"
| "rxm (NotAhead r) st = (if rxm r st = [] then [st] else [])"
| "rxm Bos st = (if pos st = 0 then [st] else [])"
| "rxm Eos st = (if rest st = [] then [st] else [])"
  by pat_completeness auto
termination
  by (relation "measures [\<lambda>(r, st). size r, \<lambda>(r, st). length (rest st)]") auto

declare rxm.simps(5) [simp del]

text \<open>The iterations of \<open>r*\<close> that follow one match of \<open>r\<close>; one that consumed nothing is dropped.\<close>

definition star_next :: "rx \<Rightarrow> nat \<Rightarrow> mstate list \<Rightarrow> mstate list" where
  "star_next r n sts =
     concat (map (\<lambda>st'. if length (rest st') < n then rxm (Star r) st' else []) sts)"

text \<open>
  \<open>exec\<close> with the \<open>g\<close> flag and \<open>lastIndex = 0\<close>: the pattern is tried at index 0, 1, ...
  up to the length of the string, and the first match wins.
\<close>

fun exec_from :: "rx \<Rightarrow> nat \<Rightarrow> jsstring \<Rightarrow> mstate option" where
  "exec_from r i s =
     (case rxm r \<lparr>pos = i, rest = s, caps = Map.empty\<rparr> of
        st # _ \<Rightarrow> Some st
      | [] \<Rightarrow> (case s of [] \<Rightarrow> None | _ # s' \<Rightarrow> exec_from r (Suc i) s'))"

declare exec_from.simps [simp del]

definition exec :: "rx \<Rightarrow> jsstring \<Rightarrow> mstate option" where
  "exec r s = exec_from r 0 s"

subsection \<open>Quantifiers as written in the patterns\<close>

definition Plus :: "rx \<Rightarrow> rx" where          \<comment> \<open>\<open>r+\<close>\<close>
  "Plus r = Seq r (Star r)"

definition Opt :: "rx \<Rightarrow> rx" where           \<comment> \<open>\<open>r?\<close>\<close>
  "Opt r = Alt r (Lit [])"

definition Seqs :: "rx list \<Rightarrow> rx" where
  "Seqs rs = foldr Seq rs (Lit [])"

subsection \<open>The patterns of telephony.js\<close>

definition word_chars :: "citem list" where   \<comment> \<open>\<open>\w\<close>\<close>
  "word_chars =
     [R CHR ''A'' CHR ''Z'', R CHR ''a'' CHR ''z'', R CHR ''0'' CHR ''9'', C CHR ''_'']"

definition mark_chars :: "citem list" where   \<comment> \<open>the tail \<open>.!~*'()-\<close> of both value classes\<close>
  "mark_chars = map C ''.!~*'' @ [C (CHR 0x27)] @ map C ''()-''"

definition hexU :: rx where                   \<comment> \<open>\<open>[0-9A-F]\<close>\<close>
  "hexU = Cls [R CHR ''0'' CHR ''9'', R CHR ''A'' CHR ''F'']"

definition pct :: rx where                    \<comment> \<open>\<open>%[0-9A-F]{2}\<close>\<close>
  "pct = Seqs [Lit ''%'', hexU, hexU]"

text \<open>\<^verbatim>\<open>[\w.!~*'()-]+=(?:[\w.!~*'()-]|%[0-9A-F]{2})*\<close>\<close>

definition smsParam :: rx where
  "smsParam =
     Seqs [Plus (Cls (word_chars @ mark_chars)), Lit ''='',
           Star (Alt (Cls (word_chars @ mark_chars)) pct)]"

text \<open>\<^verbatim>\<open>;[a-zA-Z0-9-]+=(?:[\w\[\]/:&+$.!~*'()-]|%[0-9A-F]{2})+\<close>\<close>

definition telParam :: rx where
  "telParam =
     Seqs [Lit '';'',
           Plus (Cls [R CHR ''a'' CHR ''z'', R CHR ''A'' CHR ''Z'', R CHR ''0'' CHR ''9'',
                      C CHR ''-'']),
           Lit ''='',
           Plus (Alt (Cls (word_chars @ map C ''[]/:&+$'' @ mark_chars)) pct)]"

text \<open>\<^verbatim>\<open>[+]?(?:[0-9A-F*#().-]| (?! )|%20(?!%20))+\<close>\<close>

definition lenientDigits :: rx where
  "lenientDigits =
     Seqs [Opt (Cls [C CHR ''+'']),
           Plus (Alt (Cls ([R CHR ''0'' CHR ''9'', R CHR ''A'' CHR ''F''] @ map C ''*#().-''))
                (Alt (Seq (Lit '' '') (NotAhead (Lit '' '')))
                     (Seq (Lit ''%20'') (NotAhead (Lit ''%20'')))))]"

definition lenientNumber :: rx where
  "lenientNumber = Seq lenientDigits (Star telParam)"

text \<open>
  \<^verbatim>\<open>^sms:(?:[/]{2,3})?(N(?:,N)*)(?:\?(P(?:&P)*))?$\<close> with \<open>N\<close> the lenient number and
  \<open>P\<close> the sms parameter.
\<close>

definition smsRegex :: rx where
  "smsRegex =
     Seqs [Bos, Lit ''sms:'',
           Opt (Seqs [Cls [C CHR ''/''], Cls [C CHR ''/''], Opt (Cls [C CHR ''/''])]),
           Grp 1 (Seq lenientNumber (Star (Seq (Lit '','') lenientNumber))),
           Opt (Seq (Lit ''?'') (Grp 2 (Seq smsParam (Star (Seq (Lit ''&'') smsParam))))),
           Eos]"

text \<open>\<^verbatim>\<open>^(D)((?:T)*)$\<close> with \<open>D\<close> the lenient digits and \<open>T\<close> the tel parameter.\<close>

definition numberRegex :: rx where
  "numberRegex = Seqs [Bos, Grp 1 lenientDigits, Grp 2 (Star telParam), Eos]"

subsection \<open>The grammar of the specification\<close>







subsection \<open>What a pattern can consume\<close>

text \<open>
  The words a pattern can consume, with every lookahead and anchor read as the empty
  word: an upper bound of what the matcher accepts. \<open>groups\<close> are the capturing groups
  of a pattern, and \<open>avoids c r\<close> says that no word of \<open>r\<close> contains \<open>c\<close>.
\<close>

primrec lang :: "rx \<Rightarrow> jsstring set" where
  "lang (Cls items) = {[u] | u. \<exists>i \<in> set items. in_item u i}"
| "lang (Lit l) = {S l}"
| "lang (Seq a b) = {x @ y | x y. x \<in> lang a \<and> y \<in> lang b}"
| "lang (Alt a b) = lang a \<union> lang b"
| "lang (Star r) = {concat ws | ws. set ws \<subseteq> lang r}"
| "lang (Grp n r) = lang r"
| "lang (NotAhead r) = {[]}"
| "lang Bos = {[]}"
| "lang Eos = {[]}"

primrec groups :: "rx \<Rightarrow> nat set" where
  "groups (Cls items) = {}"
| "groups (Lit l) = {}"
| "groups (Seq a b) = groups a \<union> groups b"
| "groups (Alt a b) = groups a \<union> groups b"
| "groups (Star r) = groups r"
| "groups (Grp n r) = insert n (groups r)"
| "groups (NotAhead r) = {}"
| "groups Bos = {}"
| "groups Eos = {}"

primrec avoids :: "nat \<Rightarrow> rx \<Rightarrow> bool" where
  "avoids c (Cls items) = (\<not> (\<exists>i \<in> set items. in_item c i))"
| "avoids c (Lit l) = (c \<notin> set (S l))"
| "avoids c (Seq a b) = (avoids c a \<and> avoids c b)"
| "avoids c (Alt a b) = (avoids c a \<and> avoids c b)"
| "avoids c (Star r) = avoids c r"
| "avoids c (Grp n r) = avoids c r"
| "avoids c (NotAhead r) = True"
| "avoids c Bos = True"
| "avoids c Eos = True"

definition consumes :: "mstate \<Rightarrow> jsstring \<Rightarrow> mstate \<Rightarrow> bool" where
  "consumes st w st' = (rest st = w @ rest st' \<and> pos st' = pos st + length w)"

section \<open>SmsURI\<close>

record SmsURI =
  recipients :: "jsstring list"
  body :: "jsstring option"

text \<open>
  The loop over the tel parameters of one recipient, then the final
  \<open>return unescape(number)\<close>. \<open>value.startsWith\<close> on a parameter without \<open>=\<close> is a
  TypeError.
\<close>

fun params_loop :: "jsstring \<Rightarrow> jsstring list \<Rightarrow> error + jsstring" where
  "params_loop number [] = Inr (unescape number)"
| "params_loop number (param # ps) =
     (case split (of_char CHR ''='') param of
        [] \<Rightarrow> params_loop number ps
      | key # vs \<Rightarrow>
          if key = S ''phone-context'' then
            (case vs of
               [] \<Rightarrow> Inl TypeError
             | v # _ \<Rightarrow> if startsWith v (S ''+'') then Inr (v @ unescape number)
                        else params_loop number ps)
          else params_loop number ps)"

text \<open>The function mapped over \<open>recipients.split(",")\<close>.\<close>

definition map_recipient :: "jsstring \<Rightarrow> error + jsstring" where
  "map_recipient recipient =
     (case exec numberRegex recipient of
        None \<Rightarrow> Inl TypeError
      | Some m \<Rightarrow>
          if truthy (caps m 2)
          then params_loop (ToString (caps m 1))
                 (split (of_char CHR '';'') (drop 1 (or_empty (caps m 2))))
          else Inr (unescape (ToString (caps m 1))))"

text \<open>\<open>Array.prototype.map\<close> with a callback that may throw: the first exception ends it.\<close>

fun map_recipients :: "jsstring list \<Rightarrow> error + jsstring list" where
  "map_recipients [] = Inr []"
| "map_recipients (r # rs) =
     (case map_recipient r of
        Inl e \<Rightarrow> Inl e
      | Inr x \<Rightarrow> map_sum id ((#) x) (map_recipients rs))"

text \<open>The loop over \<open>query.split("&")\<close>; the first argument is \<open>this.body\<close> so far.\<close>

fun query_loop :: "jsstring option \<Rightarrow> jsstring list \<Rightarrow> error + jsstring option" where
  "query_loop b [] = Inr b"
| "query_loop b (field # fs) =
     (case split (of_char CHR ''='') field of
        [] \<Rightarrow> query_loop b fs
      | key # vs \<Rightarrow>
          if key = S ''body'' then
            (if truthy b then Inl DuplicateField
             else (case vs of
                     [] \<Rightarrow> query_loop None fs
                   | v # _ \<Rightarrow>
                       if v = [] then query_loop None fs
                       else (case decodeURIComponent v of
                               Inl e \<Rightarrow> Inl e
                             | Inr d \<Rightarrow> query_loop (Some d) fs)))
          else query_loop b fs)"

definition SmsURI_init :: "jsstring \<Rightarrow> error + SmsURI" where
  "SmsURI_init uri =
     (case exec smsRegex uri of
        None \<Rightarrow> Inl MalformedUri
      | Some m \<Rightarrow>
          (case caps m 1 of
             None \<Rightarrow> Inl TypeError
           | Some rs \<Rightarrow>
               (case map_recipients (split (of_char CHR '','') rs) of
                  Inl e \<Rightarrow> Inl e
                | Inr recs \<Rightarrow>
                    if truthy (caps m 2)
                    then (case query_loop None (split (of_char CHR ''&'') (or_empty (caps m 2))) of
                            Inl e \<Rightarrow> Inl e
                          | Inr b \<Rightarrow> Inr \<lparr>recipients = recs, body = b\<rparr>)
                    else Inr \<lparr>recipients = recs, body = None\<rparr>)))"

fun join :: "jsstring \<Rightarrow> jsstring list \<Rightarrow> jsstring" where
  "join sep [] = []"
| "join sep [x] = x"
| "join sep (x # y # ys) = x @ sep @ join sep (y # ys)"

definition SmsURI_toString :: "SmsURI \<Rightarrow> jsstring" where
  "SmsURI_toString u =
     (let uri = S ''sms:'' @ join (S '','') (recipients u) in
      if truthy (body u) then uri @ S ''?body='' @ escape (or_empty (body u)) else uri)"

subsection \<open>The recipient rewrite in the specification's words\<close>

text \<open>
  A tel parameter as the pattern admits it: a key and a value around the first \<open>=\<close>
  (code unit 61), with no \<open>;\<close> (code unit 59) and no further \<open>=\<close>.
\<close>

definition tel_param :: "jsstring \<Rightarrow> bool" where
  "tel_param q = (\<exists>k v. q = k @ 61 # v \<and> 59 \<notin> set k \<and> 61 \<notin> set k \<and> 59 \<notin> set v \<and> 61 \<notin> set v)"

text \<open>
  URL-unescaping as the specification means it for a digit string: every \<open>%\<close> followed by
  two hexadecimal digits stands for the code unit they name, and everything else stands
  for itself.
\<close>

fun percent_decode :: "jsstring \<Rightarrow> jsstring" where
  "percent_decode [] = []"
| "percent_decode (c # cs) =
     (case (c = 37, cs) of
        (True, a # b # cs') \<Rightarrow>
          (case (hexval a, hexval b) of
             (Some x, Some y) \<Rightarrow> (16 * x + y) # percent_decode cs'
           | _ \<Rightarrow> c # percent_decode cs)
      | _ \<Rightarrow> c # percent_decode cs)"

text \<open>
  The value of the first \<open>phone-context\<close> parameter that starts with \<open>+\<close>, put before the
  URL-unescaped digits, or the URL-unescaped digits alone; \<open>spec_recipient\<close> cuts a
  recipient at its first \<open>;\<close> into digits and parameters.
\<close>

definition promoted :: "jsstring \<Rightarrow> jsstring \<Rightarrow> jsstring" where
  "promoted number params =
     (case find (\<lambda>q. startsWith q (S ''phone-context=+''))
                (split (of_char CHR '';'') (drop 1 params)) of
        None \<Rightarrow> percent_decode number
      | Some q \<Rightarrow> drop (length ''phone-context='') q @ percent_decode number)"

definition spec_recipient :: "jsstring \<Rightarrow> jsstring" where
  "spec_recipient r =
     promoted (takeWhile (\<lambda>u. u \<noteq> of_char CHR '';'') r)
              (dropWhile (\<lambda>u. u \<noteq> of_char CHR '';'') r)"

section \<open>The telephony plugin\<close>

subsection \<open>Data\<close>

text \<open>The body of a \<open>kdeconnect.telephony\<close> packet; an absent \<open>isCancel\<close> is \<open>False\<close>.\<close>

record packet_body =
  event :: jsstring
  contactName :: "jsstring option"
  phoneNumber :: "jsstring option"
  messageBody :: "jsstring option"
  phoneThumbnail :: "jsstring option"
  isCancel :: bool

record contact =
  name :: jsstring
  avatar :: "jsstring option"

datatype icon =
    ContactPixbuf jsstring   \<comment> \<open>\<open>contacts.getContactPixbuf(path)\<close>\<close>
  | ThemedIcon jsstring
  | NoIcon                   \<comment> \<open>\<open>gicon\<close> never assigned\<close>

text \<open>The event object \<open>_parsePacket\<close> returns: the packet body with three more fields.\<close>

record telephony_event = packet_body +
  time :: int
  contact :: contact
  gicon :: icon

datatype jsval = Str jsstring | Num int | Undef

fun opt_val :: "jsstring option \<Rightarrow> jsval" where
  "opt_val None = Undef"
| "opt_val (Some s) = Str s"

datatype priority = NORMAL | HIGH | URGENT

datatype action =
    DeviceButton jsstring jsstring jsstring "jsval list"   \<comment> \<open>label, object path, action, arguments\<close>
  | DeviceAction jsstring jsstring "jsval list"            \<comment> \<open>object path, action, arguments\<close>

record notification =
  n_title :: jsstring
  n_body :: "jsstring option"
  n_icon :: icon
  n_priority :: priority
  n_action :: "action option"

text \<open>
  An open window: the id of its device (\<open>None\<close> when \<open>win.device\<close> is unset) and its
  stored number.
\<close>

record window =
  w_device :: "jsstring option"
  w_number :: jsstring

text \<open>What the plugin does to the objects around it, in the order it does it.\<close>

datatype effect =
    FileSetContents jsstring jsstring     \<comment> \<open>path, the base64 text whose bytes are written\<close>
  | WriteCache
  | Emit jsstring jsstring "jsstring list"  \<comment> \<open>signal, event kind, the packed fields\<close>
  | WithdrawNotification jsstring
  | SendNotification jsstring notification
  | MarkDuplicate jsstring jsstring bool  \<comment> \<open>\<open>localId\<close>, \<open>ticker\<close>, \<open>isCancel\<close>\<close>
  | ReceiveMessage window contact jsstring jsval
  | SetUrgencyHint window
  | PushNotification window jsstring      \<comment> \<open>\<open>window._notifications.push\<close>\<close>
  | Log jsstring

text \<open>
  What the plugin reads from its surroundings. \<open>Allow.SMS\<close> and \<open>Allow.CALLS\<close> are declared
  outside telephony.js, as are the contact store, \<open>gettext\<close> and \<open>String.prototype.format\<close>.
\<close>

record env =
  now :: int                              \<comment> \<open>\<open>GLib.DateTime.new_now_local().to_unix()\<close>\<close>
  uuid :: jsstring                        \<comment> \<open>\<open>GLib.uuid_string_random()\<close>\<close>
  cacheDir :: jsstring
  getContact :: "jsstring option \<Rightarrow> jsstring option \<Rightarrow> contact"
  gettext :: "jsstring \<Rightarrow> jsstring"
  format :: "jsstring \<Rightarrow> jsval list \<Rightarrow> jsstring"
  device_id :: jsstring
  device_name :: jsstring
  dbus_path :: jsstring
  notification_plugin :: bool             \<comment> \<open>\<open>device._plugins.get("notification")\<close> is there\<close>
  windows :: "window list"                \<comment> \<open>\<open>device.daemon.get_windows()\<close>\<close>
  allow :: "32 word"
  Allow_SMS :: "32 word"
  Allow_CALLS :: "32 word"

text \<open>The plugin's own mutable field \<open>_state\<close>; \<open>None\<close> until it is first assigned.\<close>

record plugin =
  media_state :: "32 word option"

datatype outcome =
    ReturnsUndefined       \<comment> \<open>no promise: the cancel branch\<close>
  | Resolved bool
  | RejectedFalse          \<comment> \<open>\<open>reject(false)\<close>\<close>
  | RejectedWith error     \<comment> \<open>an exception thrown inside the promise executor\<close>

subsection \<open>\<open>_parsePacket\<close>\<close>

definition event_icon :: "contact \<Rightarrow> jsstring \<Rightarrow> icon" where
  "event_icon c kind =
     (if truthy (avatar c) then ContactPixbuf (or_empty (avatar c))
      else if kind = S ''missedCall'' then ThemedIcon (S ''call-missed-symbolic'')
      else if kind \<in> set [S ''ringing'', S ''talking''] then ThemedIcon (S ''call-start-symbolic'')
      else if kind = S ''sms'' then ThemedIcon (S ''sms-symbolic'')
      else NoIcon)"

definition parsePacket :: "env \<Rightarrow> packet_body \<Rightarrow> effect list \<times> telephony_event" where
  "parsePacket e b =
     (let c = getContact e (contactName b) (phoneNumber b);
          path = cacheDir e @ S ''/'' @ uuid e @ S ''.jpeg'';
          update = (truthy (phoneThumbnail b) \<and> \<not> truthy (avatar c));
          c' = (if update then c\<lparr>avatar := Some path\<rparr> else c)
      in ((if update then [FileSetContents path (or_empty (phoneThumbnail b)), WriteCache] else []),
          \<lparr>event = event b, contactName = contactName b, phoneNumber = phoneNumber b,
           messageBody = messageBody b,
           phoneThumbnail = (if truthy (phoneThumbnail b) then None else phoneThumbnail b),
           isCancel = isCancel b,
           time = now e, contact = c', gicon = event_icon c' (event b)\<rparr>))"

subsection \<open>\<open>_hasWindow\<close>\<close>

fun hasWindow_loop :: "jsstring \<Rightarrow> jsstring \<Rightarrow> window list \<Rightarrow> window option" where
  "hasWindow_loop dev number [] = None"
| "hasWindow_loop dev number (win # ws) =
     (if w_device win = None \<or> w_device win \<noteq> Some dev then hasWindow_loop dev number ws
      else if number = strip_non_digits (w_number win) then Some win
      else hasWindow_loop dev number ws)"

definition hasWindow :: "env \<Rightarrow> jsstring \<Rightarrow> window option" where
  "hasWindow e number = hasWindow_loop (device_id e) (strip_non_digits number) (windows e)"

subsection \<open>\<open>_setMediaState\<close>\<close>

definition setMediaState :: "32 word \<Rightarrow> plugin \<Rightarrow> plugin" where
  "setMediaState state p =
     (if state = 1 then p\<lparr>media_state := Some 1\<rparr>
      else (let s = (2 :: 32 word) in
            if state AND 2 \<noteq> 0 then p\<lparr>media_state := Some (s AND state)\<rparr>
            else if state AND 4 \<noteq> 0 then p\<lparr>media_state := Some (s AND state)\<rparr>
            else p\<lparr>media_state := Some s\<rparr>))"

text \<open>The same update with the masking branch left out, to compare with.\<close>

definition setMediaState_plain :: "32 word \<Rightarrow> plugin \<Rightarrow> plugin" where
  "setMediaState_plain state p =
     (if state = 1 then p\<lparr>media_state := Some 1\<rparr> else p\<lparr>media_state := Some 2\<rparr>)"

subsection \<open>The event handlers\<close>

text \<open>
  Each handler gives the effects it had and \<open>true\<close>, or the exception that ended it:
  \<open>_hasWindow\<close> calls \<open>replace\<close> on the phone number, a TypeError when the packet has none.
\<close>

definition window_ticker :: "telephony_event \<Rightarrow> jsstring" where
  "window_ticker ev = name (contact ev) @ S '': '' @ ToString (messageBody ev)"

definition in_window :: "env \<Rightarrow> telephony_event \<Rightarrow> window \<Rightarrow> jsstring \<Rightarrow> jsval \<Rightarrow> jsstring
    \<Rightarrow> effect list" where
  "in_window e ev win number message localId =
     [ReceiveMessage win (contact ev) number message,
      SetUrgencyHint win,
      PushNotification win (event ev @ S ''|'' @ window_ticker ev)]
     @ (if notification_plugin e then [MarkDuplicate localId (window_ticker ev) True] else [])"

definition onMissedCall :: "env \<Rightarrow> telephony_event \<Rightarrow> effect list \<times> (error + bool)" where
  "onMissedCall e ev =
     (let localId = S ''missedCall|'' @ ToString_int (time ev);
          early = (if notification_plugin e
                   then [MarkDuplicate localId
                           (gettext e (S ''Missed call'') @ S '': '' @ name (contact ev)) False]
                   else [])
      in case phoneNumber ev of
           None \<Rightarrow> (early, Inl TypeError)
         | Some number \<Rightarrow>
             (let shown = (case hasWindow e number of
                             None \<Rightarrow> []
                           | Some win \<Rightarrow>
                               in_window e ev win number
                                 (Str (S ''<i>'' @ format e (gettext e (S ''Missed call at %s''))
                                                     [Num (time ev)] @ S ''</i>''))
                                 localId);
                  notif = \<lparr>n_title = gettext e (S ''Missed Call''),
                           n_body = Some (format e (gettext e (S ''Missed call from %s on %s''))
                                            [Str (name (contact ev)), Str (device_name e)]),
                           n_icon = gicon ev, n_priority = NORMAL,
                           n_action = Some (DeviceButton (gettext e (S ''Message'')) (dbus_path e)
                                              (S ''replyMissedCall'')
                                              [Str number, Str (name (contact ev)), Num (time ev)])\<rparr>
              in (early @ shown
                    @ [SendNotification (event ev @ S ''|'' @ ToString_int (time ev)) notif],
                  Inr True)))"

definition onSms :: "env \<Rightarrow> telephony_event \<Rightarrow> effect list \<times> (error + bool)" where
  "onSms e ev =
     (let localId = S ''sms|'' @ ToString_int (time ev);
          early = (if notification_plugin e
                   then [MarkDuplicate localId (window_ticker ev) False]
                   else [])
      in case phoneNumber ev of
           None \<Rightarrow> (early, Inl TypeError)
         | Some number \<Rightarrow>
             (let shown = (case hasWindow e number of
                             None \<Rightarrow> []
                           | Some win \<Rightarrow>
                               in_window e ev win number (opt_val (messageBody ev)) localId);
                  notif = \<lparr>n_title = name (contact ev),
                           n_body = messageBody ev,
                           n_icon = gicon ev, n_priority = HIGH,
                           n_action = Some (DeviceAction (dbus_path e) (S ''replySms'')
                                              [Str number, Str (name (contact ev)),
                                               opt_val (messageBody ev), Num (time ev)])\<rparr>
              in (early @ shown
                    @ [SendNotification (event ev @ S ''|'' @ ToString_int (time ev)) notif],
                  Inr True)))"

definition onRinging :: "env \<Rightarrow> plugin \<Rightarrow> telephony_event
    \<Rightarrow> plugin \<times> effect list \<times> (error + bool)" where
  "onRinging e p ev =
     (let notif = \<lparr>n_title = gettext e (S ''Incoming Call''),
                   n_body = Some (format e (gettext e (S ''Incoming call from %s on %s''))
                                    [Str (name (contact ev)), Str (device_name e)]),
                   n_icon = gicon ev, n_priority = URGENT,
                   n_action = Some (DeviceButton (gettext e (S ''Mute'')) (dbus_path e)
                                      (S ''muteCall'') [])\<rparr>
      in (setMediaState 2 p,
          [SendNotification (event ev @ S ''|'' @ ToString_int (time ev)) notif],
          Inr True))"

definition onTalking :: "env \<Rightarrow> plugin \<Rightarrow> telephony_event
    \<Rightarrow> plugin \<times> effect list \<times> (error + bool)" where
  "onTalking e p ev =
     (let notif = \<lparr>n_title = gettext e (S ''Call In Progress''),
                   n_body = Some (format e (gettext e (S ''Call in progress with %s on %s''))
                                    [Str (name (contact ev)), Str (device_name e)]),
                   n_icon = gicon ev, n_priority = NORMAL,
                   n_action = None\<rparr>
      in (setMediaState 2 p,
          [WithdrawNotification (S ''ringing|'' @ name (contact ev)),
           SendNotification (event ev @ S ''|'' @ ToString_int (time ev)) notif],
          Inr True))"

subsection \<open>\<open>handlePacket\<close>\<close>

fun settle :: "error + bool \<Rightarrow> outcome" where
  "settle (Inl err) = RejectedWith err"
| "settle (Inr v) = Resolved v"

definition dispatch :: "env \<Rightarrow> plugin \<Rightarrow> telephony_event \<Rightarrow> plugin \<times> effect list \<times> outcome" where
  "dispatch e p ev =
     (if event ev = S ''sms'' \<and> allow e AND Allow_SMS e \<noteq> 0
      then (case onSms e ev of (effs, r) \<Rightarrow> (p, effs, settle r))
      else if allow e AND Allow_CALLS e \<noteq> 0
      then (if event ev = S ''missedCall''
            then (case onMissedCall e ev of (effs, r) \<Rightarrow> (p, effs, settle r))
            else if event ev = S ''ringing''
            then (case onRinging e p ev of (p', effs, r) \<Rightarrow> (p', effs, settle r))
            else if event ev = S ''talking''
            then (case onTalking e p ev of (p', effs, r) \<Rightarrow> (p', effs, settle r))
            else (p, [Log (S ''Unknown telephony event'')], RejectedFalse))
      else (p, [], RejectedFalse))"

definition event_signal :: "telephony_event \<Rightarrow> effect" where
  "event_signal ev =
     Emit (S ''event'') (event ev)
       [or_empty (Some (name (contact ev))), or_empty (phoneNumber ev),
        or_empty (avatar (contact ev)), or_empty (messageBody ev)]"

definition handlePacket :: "env \<Rightarrow> plugin \<Rightarrow> packet_body \<Rightarrow> plugin \<times> effect list \<times> outcome" where
  "handlePacket e p packet =
     (case parsePacket e packet of
        (parsed, ev) \<Rightarrow>
          if isCancel ev
          then (setMediaState 1 p,
                parsed @ [WithdrawNotification (event ev @ S ''|'' @ name (contact ev))],
                ReturnsUndefined)
          else (case dispatch e p ev of
                  (p', effs, r) \<Rightarrow> (p', parsed @ [event_signal ev] @ effs, r)))"

subsection \<open>Reading a trace of effects\<close>

fun is_emit :: "effect \<Rightarrow> bool" where
  "is_emit (Emit _ _ _) = True"
| "is_emit _ = False"

fun is_withdraw :: "effect \<Rightarrow> bool" where
  "is_withdraw (WithdrawNotification _) = True"
| "is_withdraw _ = False"

fun is_send :: "effect \<Rightarrow> bool" where
  "is_send (SendNotification _ _) = True"
| "is_send _ = False"

fun is_receive :: "effect \<Rightarrow> bool" where
  "is_receive (ReceiveMessage _ _ _ _) = True"
| "is_receive _ = False"

fun is_cancel_mark :: "effect \<Rightarrow> bool" where
  "is_cancel_mark (MarkDuplicate _ _ c) = c"
| "is_cancel_mark _ = False"

subsection \<open>A sample device\<close>

text \<open>
  One paired device with one open conversation and the notification plugin loaded; the
  contact store falls back to the phone number as the name. The permission bits are
  sample values.
\<close>

definition sample_env :: env where
  "sample_env =
     \<lparr>now = 1500000000, uuid = S ''u1'', cacheDir = S ''/cache'',
      getContact = (\<lambda>n num. \<lparr>name = (if truthy n then or_empty n else or_empty num),
                                 avatar = None\<rparr>),
      gettext = (\<lambda>s. s), format = (\<lambda>s args. s),
      device_id = S ''phone'', device_name = S ''Pixel'', dbus_path = S ''/phone'',
      notification_plugin = True,
      windows = [\<lparr>w_device = Some (S ''phone''), w_number = S ''+1 (555) 123-4567''\<rparr>],
      allow = 6, Allow_SMS = 4, Allow_CALLS = 2\<rparr>"

definition sample_packet :: "jsstring \<Rightarrow> bool \<Rightarrow> packet_body" where
  "sample_packet kind cancel =
     \<lparr>event = kind, contactName = Some (S ''Ann''), phoneNumber = Some (S ''15551234567''),
      messageBody = Some (S ''hi''), phoneThumbnail = None, isCancel = cancel\<rparr>"

text \<open>An SMS whose packet names no contact.\<close>

definition unnamed_packet :: packet_body where
  "unnamed_packet =
     \<lparr>event = S ''sms'', contactName = None, phoneNumber = Some (S ''15551234567''),
      messageBody = Some (S ''hi''), phoneThumbnail = None, isCancel = False\<rparr>"

section \<open>Evaluation\<close>

lemma star_next_Nil: "star_next r n [] = []"
  by (simp add: star_next_def)

lemma star_next_Cons:
  "star_next r n (st' # sts) =
     (if length (rest st') < n then rxm (Star r) st' else []) @ star_next r n sts"
  by (simp add: star_next_def)

lemma rxm_Star: "rxm (Star r) st = star_next r (length (rest st)) (rxm r st) @ [st]"
  by (simp add: star_next_def rxm.simps(5))

lemmas rx_eval = star_next_Nil star_next_Cons rxm_Star exec_from.simps S_def

lemmas rx_defs = Plus_def Opt_def Seqs_def word_chars_def mark_chars_def hexU_def pct_def
  smsParam_def telParam_def lenientDigits_def lenientNumber_def smsRegex_def numberRegex_def

lemmas uri_eval = rx_eval rx_defs SmsURI_init_def exec_def map_recipient_def SmsURI_toString_def
  hex_at_def escape_def escape_unit_def escape_unreserved_def hexdigit_def hexval_def

section \<open>The dispatcher\<close>


lemma parse_effects_no_emit: "filter is_emit (fst (parsePacket e b)) = []"
  by (simp add: parsePacket_def Let_def)

lemma parse_effects_no_withdraw: "filter is_withdraw (fst (parsePacket e b)) = []"
  by (simp add: parsePacket_def Let_def)

lemma parse_fields:
  "event (snd (parsePacket e b)) = event b"
  "isCancel (snd (parsePacket e b)) = isCancel b"
  "phoneNumber (snd (parsePacket e b)) = phoneNumber b"
  "messageBody (snd (parsePacket e b)) = messageBody b"
  "time (snd (parsePacket e b)) = now e"
  by (simp_all add: parsePacket_def Let_def)

text \<open>
  Claim C3. For a packet with \<open>isCancel\<close> set, \<open>handlePacket\<close> makes the cancel
  transition \<open>_setMediaState(1)\<close>, asks exactly once for the withdrawal of the notification
  keyed by the event kind, \<open>|\<close> and the contact's name, and emits no signal.
\<close>

theorem handlePacket_cancel:
  "isCancel packet \<Longrightarrow>
     fst (handlePacket e p packet) = setMediaState 1 p \<and>
     media_state (fst (handlePacket e p packet)) = Some 1 \<and>
     filter is_withdraw (fst (snd (handlePacket e p packet))) =
       [WithdrawNotification
          (event packet @ S ''|'' @ name (contact (snd (parsePacket e packet))))] \<and>
     filter is_emit (fst (snd (handlePacket e p packet))) = []"
  using parse_effects_no_emit[of e packet] parse_effects_no_withdraw[of e packet]
    parse_fields(1,2)[of e packet]
  by (cases "parsePacket e packet") (simp add: handlePacket_def setMediaState_def)

lemma sample_contact:
  "contact (snd (parsePacket sample_env (sample_packet kind c))) = \<lparr>name = S ''Ann'', avatar = None\<rparr>"
  by (simp add: parsePacket_def sample_env_def sample_packet_def Let_def S_def)

text \<open>
  The cancel of a ringing call from Ann on the sample device.
\<close>

theorem handlePacket_cancel_witness:
  "isCancel (sample_packet (S ''ringing'') True) \<and>
   media_state (fst (handlePacket sample_env \<lparr>media_state = None\<rparr> (sample_packet (S ''ringing'') True))) = Some 1 \<and>
   filter is_withdraw (fst (snd (handlePacket sample_env \<lparr>media_state = None\<rparr> (sample_packet (S ''ringing'') True)))) =
     [WithdrawNotification (S ''ringing|Ann'')] \<and>
   filter is_emit (fst (snd (handlePacket sample_env \<lparr>media_state = None\<rparr> (sample_packet (S ''ringing'') True)))) = []"
proof -
  have c: "isCancel (sample_packet (S ''ringing'') True)"
    by (simp add: sample_packet_def)
  have k: "event (sample_packet (S ''ringing'') True) @ S ''|'' @ S ''Ann'' = S ''ringing|Ann''"
    by (simp add: sample_packet_def S_def)
  from handlePacket_cancel[OF c, of sample_env "\<lparr>media_state = None\<rparr>"] c k show ?thesis
    by (simp add: sample_contact setMediaState_def)
qed

lemma onSms_no_emit: "filter is_emit (fst (onSms e ev)) = []"
  by (simp add: onSms_def in_window_def Let_def split: option.split)

lemma onMissedCall_no_emit: "filter is_emit (fst (onMissedCall e ev)) = []"
  by (simp add: onMissedCall_def in_window_def Let_def split: option.split)

lemma onRinging_no_emit: "filter is_emit (fst (snd (onRinging e p ev))) = []"
  by (simp add: onRinging_def Let_def)

lemma onTalking_no_emit: "filter is_emit (fst (snd (onTalking e p ev))) = []"
  by (simp add: onTalking_def Let_def)

lemma dispatch_no_emit: "filter is_emit (fst (snd (dispatch e p ev))) = []"
  using onSms_no_emit[of e ev] onMissedCall_no_emit[of e ev]
    onRinging_no_emit[of e p ev] onTalking_no_emit[of e p ev]
  by (cases "onSms e ev"; cases "onMissedCall e ev"; cases "onRinging e p ev";
      cases "onTalking e p ev") (simp add: dispatch_def)

text \<open>
  Claim C8 as stated fails: the first field of the signal is not the packet's
  \<open>contactName\<close> with an empty-string fallback. For a packet that names no contact the
  sample contact store resolves the name to the phone number, and that is what the signal
  carries.
\<close>

theorem event_signal_resolved_name:
  "contactName unnamed_packet = None \<and> \<not> isCancel unnamed_packet \<and>
   filter is_emit (fst (snd (handlePacket sample_env \<lparr>media_state = None\<rparr> unnamed_packet))) =
     [Emit (S ''event'') (S ''sms'') [S ''15551234567'', S ''15551234567'', [], S ''hi'']] \<and>
   filter is_emit (fst (snd (handlePacket sample_env \<lparr>media_state = None\<rparr> unnamed_packet))) \<noteq>
     [Emit (S ''event'') (S ''sms'') [[], S ''15551234567'', [], S ''hi'']]"
proof -
  have p: "parsePacket sample_env unnamed_packet =
     ([], \<lparr>event = S ''sms'', contactName = None, phoneNumber = Some (S ''15551234567''),
           messageBody = Some (S ''hi''), phoneThumbnail = None, isCancel = False,
           time = 1500000000, contact = \<lparr>name = S ''15551234567'', avatar = None\<rparr>,
           gicon = ThemedIcon (S ''sms-symbolic'')\<rparr>)"
    by (simp add: parsePacket_def sample_env_def unnamed_packet_def event_icon_def Let_def S_def)
  have e: "filter is_emit
       (fst (snd (handlePacket sample_env \<lparr>media_state = None\<rparr> unnamed_packet))) =
     [Emit (S ''event'') (S ''sms'') [S ''15551234567'', S ''15551234567'', [], S ''hi'']]"
    using dispatch_no_emit[of sample_env "\<lparr>media_state = None\<rparr>" "snd (parsePacket sample_env unnamed_packet)"]
    by (cases "dispatch sample_env \<lparr>media_state = None\<rparr> (snd (parsePacket sample_env unnamed_packet))")
       (simp add: handlePacket_def p event_signal_def)
  have n: "S ''15551234567'' \<noteq> ([] :: jsstring)"
    by (simp add: S_def)
  from e n show ?thesis
    by (simp add: unnamed_packet_def)
qed

text \<open>
  Claim C8, amended. For a packet without \<open>isCancel\<close>, \<open>handlePacket\<close> emits the \<open>event\<close> signal
  exactly once, with the name of the contact that the contact store resolved (not the
  packet's \<open>contactName\<close>), the phone number, that contact's avatar path and the message
  body, the empty string standing for an absent one, whatever the permission bits
  \<open>allow\<close> are.
\<close>

theorem handlePacket_event_signal:
  "\<not> isCancel packet \<Longrightarrow>
     filter is_emit (fst (snd (handlePacket (e\<lparr>allow := a\<rparr>) p packet))) =
       [Emit (S ''event'') (event packet)
          [name (contact (snd (parsePacket e packet))),
           or_empty (phoneNumber packet),
           or_empty (avatar (contact (snd (parsePacket e packet)))),
           or_empty (messageBody packet)]]"
proof -
  assume nc: "\<not> isCancel packet"
  have same: "parsePacket (e\<lparr>allow := a\<rparr>) packet = parsePacket e packet"
    by (simp add: parsePacket_def)
  obtain parsed ev where pe: "parsePacket e packet = (parsed, ev)"
    by (cases "parsePacket e packet")
  obtain p' effs r where d: "dispatch (e\<lparr>allow := a\<rparr>) p ev = (p', effs, r)"
    by (cases "dispatch (e\<lparr>allow := a\<rparr>) p ev")
  have noemit: "filter is_emit effs = []"
    using dispatch_no_emit[of "e\<lparr>allow := a\<rparr>" p ev] d by simp
  have parsed: "filter is_emit parsed = []"
    using parse_effects_no_emit[of e packet] pe by simp
  have f: "event ev = event packet" "isCancel ev = isCancel packet"
    "phoneNumber ev = phoneNumber packet" "messageBody ev = messageBody packet"
    using parse_fields(1-4)[of e packet] pe by simp_all
  show ?thesis
    using nc noemit parsed f
    by (simp add: handlePacket_def same pe d event_signal_def)
qed

text \<open>
  An SMS on the sample device with every permission bit cleared.
\<close>

theorem handlePacket_event_signal_witness:
  "\<not> isCancel (sample_packet (S ''sms'') False) \<and>
   filter is_emit (fst (snd (handlePacket (sample_env\<lparr>allow := 0\<rparr>) \<lparr>media_state = None\<rparr>
                               (sample_packet (S ''sms'') False)))) =
     [Emit (S ''event'') (S ''sms'') [S ''Ann'', S ''15551234567'', [], S ''hi'']]"
proof -
  have c: "\<not> isCancel (sample_packet (S ''sms'') False)"
    by (simp add: sample_packet_def)
  have f: "event (sample_packet (S ''sms'') False) = S ''sms''"
    "or_empty (phoneNumber (sample_packet (S ''sms'') False)) = S ''15551234567''"
    "or_empty (messageBody (sample_packet (S ''sms'') False)) = S ''hi''"
    by (simp_all add: sample_packet_def)
  from handlePacket_event_signal[OF c, where e = sample_env and a = 0
      and p = "\<lparr>media_state = None\<rparr>"] c f
  show ?thesis
    by (simp add: sample_contact)
qed

lemma dispatch_media_state:
  "media_state (fst (dispatch e p ev)) \<in> {media_state p, Some 2}"
  by (cases "onSms e ev"; cases "onMissedCall e ev")
     (simp add: dispatch_def onRinging_def onTalking_def setMediaState_def Let_def)

text \<open>
  Claim C10. The plugin calls \<open>_setMediaState\<close> with 1 (cancel) and with 2 (ringing and
  talking) only. For these two inputs the stored value is the input itself, the same as
  without the masking branch; ringing and talking store the same value; and whatever
  the packet, \<open>handlePacket\<close> leaves the field as it was or stores 1 or 2.
\<close>

theorem media_state_two_values:
  "(state \<in> {1, 2} \<longrightarrow>
      setMediaState state p = setMediaState_plain state p \<and>
      media_state (setMediaState state p) = Some state) \<and>
   fst (onRinging e p ev) = setMediaState 2 p \<and>
   fst (onTalking e p ev) = setMediaState 2 p \<and>
   (isCancel packet \<longrightarrow> fst (handlePacket e p packet) = setMediaState 1 p) \<and>
   media_state (fst (handlePacket e p packet)) \<in> {media_state p, Some 1, Some 2}"
proof -
  have a: "state \<in> {1, 2} \<longrightarrow>
      setMediaState state p = setMediaState_plain state p \<and>
      media_state (setMediaState state p) = Some state"
    by (auto simp add: setMediaState_def setMediaState_plain_def)
  have b: "fst (onRinging e p ev) = setMediaState 2 p" "fst (onTalking e p ev) = setMediaState 2 p"
    by (simp_all add: onRinging_def onTalking_def Let_def)
  obtain parsed ev' where pe: "parsePacket e packet = (parsed, ev')"
    by (cases "parsePacket e packet")
  have f: "isCancel ev' = isCancel packet"
    using parse_fields(2)[of e packet] pe by simp
  have c: "isCancel packet \<longrightarrow> fst (handlePacket e p packet) = setMediaState 1 p"
    by (simp add: handlePacket_def pe f)
  have d: "media_state (fst (handlePacket e p packet)) \<in> {media_state p, Some 1, Some 2}"
    using dispatch_media_state[of e p ev']
    by (cases "dispatch e p ev'") (auto simp add: handlePacket_def pe setMediaState_def)
  from a b c d show ?thesis by blast
qed

text \<open>
  The input 2, and the cancel of a call on the sample device.
\<close>

theorem media_state_two_values_witness:
  "(2 :: 32 word) \<in> {1, 2} \<and>
   setMediaState 2 \<lparr>media_state = None\<rparr> = setMediaState_plain 2 \<lparr>media_state = None\<rparr> \<and>
   media_state (setMediaState 2 \<lparr>media_state = None\<rparr>) = Some 2 \<and>
   isCancel (sample_packet (S ''talking'') True) \<and>
   fst (handlePacket sample_env \<lparr>media_state = None\<rparr> (sample_packet (S ''talking'') True)) =
     setMediaState 1 \<lparr>media_state = None\<rparr>"
proof -
  have c: "isCancel (sample_packet (S ''talking'') True)"
    by (simp add: sample_packet_def)
  have m: "(2 :: 32 word) \<in> {1, 2}" by simp
  from media_state_two_values[where state = 2 and p = "\<lparr>media_state = None\<rparr>"
      and e = sample_env and packet = "sample_packet (S ''talking'') True"] c m
  show ?thesis by blast
qed

lemma hasWindow_loop_find:
  "hasWindow_loop dev n ws =
     find (\<lambda>w. w_device w = Some dev \<and> strip_non_digits (w_number w) = n) ws"
  by (induction ws) auto

lemma strip_non_digits_filter:
  "strip_non_digits s = filter (\<lambda>u. of_char CHR ''0'' \<le> u \<and> u \<le> of_char CHR ''9'') s"
  by (induction s) (simp_all add: strip_non_digits_def is_digit_def)

text \<open>
  Claim C7. \<open>_hasWindow\<close> returns the first open window that belongs to the plugin's own
  device and whose number, reduced to its code units between \<open>0\<close> and \<open>9\<close>, equals the
  query reduced the same way, and none when there is no such window: a window it returns
  is one of these, and it returns a window exactly when one exists.
  \<open>+1 (555) 123-4567\<close> reduces to \<open>15551234567\<close>, so the sample device's conversation
  is found from the bare digits; it is not found from a number that differs in one
  digit, nor by another device.
\<close>

theorem hasWindow_digit_match:
  "hasWindow e number =
     find (\<lambda>w. w_device w = Some (device_id e) \<and>
                filter (\<lambda>u. of_char CHR ''0'' \<le> u \<and> u \<le> of_char CHR ''9'') (w_number w) =
                filter (\<lambda>u. of_char CHR ''0'' \<le> u \<and> u \<le> of_char CHR ''9'') number)
          (windows e) \<and>
   (hasWindow e number = Some w \<longrightarrow>
      w \<in> set (windows e) \<and> w_device w = Some (device_id e) \<and>
      filter (\<lambda>u. of_char CHR ''0'' \<le> u \<and> u \<le> of_char CHR ''9'') (w_number w) =
      filter (\<lambda>u. of_char CHR ''0'' \<le> u \<and> u \<le> of_char CHR ''9'') number) \<and>
   ((\<exists>w' \<in> set (windows e). w_device w' = Some (device_id e) \<and>
        filter (\<lambda>u. of_char CHR ''0'' \<le> u \<and> u \<le> of_char CHR ''9'') (w_number w') =
        filter (\<lambda>u. of_char CHR ''0'' \<le> u \<and> u \<le> of_char CHR ''9'') number)
      \<longleftrightarrow> (\<exists>w'. hasWindow e number = Some w')) \<and>
   strip_non_digits (S ''+1 (555) 123-4567'') = S ''15551234567'' \<and>
   strip_non_digits (S ''15551234567'') = S ''15551234567'' \<and>
   hasWindow sample_env (S ''15551234567'') =
     Some \<lparr>w_device = Some (S ''phone''), w_number = S ''+1 (555) 123-4567''\<rparr> \<and>
   hasWindow sample_env (S ''1-555-123-4567'') =
     Some \<lparr>w_device = Some (S ''phone''), w_number = S ''+1 (555) 123-4567''\<rparr> \<and>
   hasWindow sample_env (S ''15551234568'') = None \<and>
   hasWindow sample_env (S ''5551234567'') = None \<and>
   hasWindow (sample_env\<lparr>device_id := S ''tablet''\<rparr>) (S ''15551234567'') = None"
proof -
  let ?d = "filter (\<lambda>u. of_char CHR ''0'' \<le> u \<and> u \<le> (of_char CHR ''9'' :: nat))"
  let ?ok = "\<lambda>w. w_device w = Some (device_id e) \<and> ?d (w_number w) = ?d number"
  have f: "hasWindow e number = find ?ok (windows e)"
    by (simp only: hasWindow_def hasWindow_loop_find strip_non_digits_filter)
  have a: "hasWindow e number = Some w \<longrightarrow> w \<in> set (windows e) \<and> ?ok w"
    unfolding f by (auto simp add: find_Some_iff)
  have b: "(\<exists>w' \<in> set (windows e). ?ok w') \<longleftrightarrow> (\<exists>w'. hasWindow e number = Some w')"
    unfolding f by (cases "find ?ok (windows e)") (auto simp add: find_None_iff find_Some_iff)
  have c: "strip_non_digits (S ''+1 (555) 123-4567'') = S ''15551234567''"
    "strip_non_digits (S ''15551234567'') = S ''15551234567''"
    by (simp_all add: strip_non_digits_def is_digit_def S_def)
  have d: "hasWindow sample_env (S ''15551234567'') =
     Some \<lparr>w_device = Some (S ''phone''), w_number = S ''+1 (555) 123-4567''\<rparr>"
    "hasWindow sample_env (S ''1-555-123-4567'') =
     Some \<lparr>w_device = Some (S ''phone''), w_number = S ''+1 (555) 123-4567''\<rparr>"
    "hasWindow sample_env (S ''15551234568'') = None"
    "hasWindow sample_env (S ''5551234567'') = None"
    "hasWindow (sample_env\<lparr>device_id := S ''tablet''\<rparr>) (S ''15551234567'') = None"
    by (simp_all add: hasWindow_def sample_env_def strip_non_digits_def is_digit_def S_def)
  show ?thesis
    by (rule conjI[OF f conjI[OF a conjI[OF b conjI[OF c(1) conjI[OF c(2) conjI[OF d(1)
          conjI[OF d(2) conjI[OF d(3) conjI[OF d(4) d(5)]]]]]]]]])
qed

lemma sample_hasWindow:
  "hasWindow sample_env (S ''15551234567'') =
     Some \<lparr>w_device = Some (S ''phone''), w_number = S ''+1 (555) 123-4567''\<rparr>"
  by (simp add: hasWindow_def sample_env_def strip_non_digits_def is_digit_def S_def)

text \<open>
  The sample device's open conversation is found from the bare digits.
\<close>

theorem hasWindow_digit_match_witness:
  "hasWindow sample_env (S ''15551234567'') =
     Some \<lparr>w_device = Some (S ''phone''), w_number = S ''+1 (555) 123-4567''\<rparr> \<and>
   \<lparr>w_device = Some (S ''phone''), w_number = S ''+1 (555) 123-4567''\<rparr> \<in> set (windows sample_env) \<and>
   w_device \<lparr>w_device = Some (S ''phone''), w_number = S ''+1 (555) 123-4567''\<rparr>
     = Some (device_id sample_env) \<and>
   filter (\<lambda>u. of_char CHR ''0'' \<le> u \<and> u \<le> of_char CHR ''9'')
       (w_number \<lparr>w_device = Some (S ''phone''), w_number = S ''+1 (555) 123-4567''\<rparr>)
     = filter (\<lambda>u. of_char CHR ''0'' \<le> u \<and> u \<le> of_char CHR ''9'') (S ''15551234567'') \<and>
   filter (\<lambda>u. of_char CHR ''0'' \<le> u \<and> u \<le> of_char CHR ''9'') (S ''15551234567'')
     = S ''15551234567''"
proof -
  let ?w = "\<lparr>w_device = Some (S ''phone''), w_number = S ''+1 (555) 123-4567''\<rparr>"
  have h: "hasWindow sample_env (S ''15551234567'') = Some ?w"
    by (rule sample_hasWindow)
  have v: "filter (\<lambda>u. of_char CHR ''0'' \<le> u \<and> u \<le> of_char CHR ''9'') (S ''15551234567'')
     = S ''15551234567''"
    by (simp add: S_def)
  from hasWindow_digit_match[of sample_env "S ''15551234567''" ?w] h v
  show ?thesis by blast
qed

lemma sample_event:
  "snd (parsePacket sample_env (sample_packet kind False)) =
     \<lparr>event = kind, contactName = Some (S ''Ann''), phoneNumber = Some (S ''15551234567''),
      messageBody = Some (S ''hi''), phoneThumbnail = None, isCancel = False,
      time = 1500000000, contact = \<lparr>name = S ''Ann'', avatar = None\<rparr>,
      gicon = event_icon \<lparr>name = S ''Ann'', avatar = None\<rparr> kind\<rparr>"
  by (simp add: parsePacket_def sample_env_def sample_packet_def Let_def S_def)

lemma sample_parse_effects: "fst (parsePacket sample_env (sample_packet kind False)) = []"
  by (simp add: parsePacket_def sample_env_def sample_packet_def Let_def S_def)

text \<open>
  Claim C1 as stated fails: on the sample device the sender's conversation is open, and
  the SMS and the missed call are each still sent as a system notification.
\<close>

theorem open_window_still_notified:
  "hasWindow sample_env (S ''15551234567'') =
     Some \<lparr>w_device = Some (S ''phone''), w_number = S ''+1 (555) 123-4567''\<rparr> \<and>
   length (filter is_send (fst (snd (handlePacket sample_env \<lparr>media_state = None\<rparr>
                                       (sample_packet (S ''sms'') False))))) = 1 \<and>
   length (filter is_send (fst (snd (handlePacket sample_env \<lparr>media_state = None\<rparr>
                                       (sample_packet (S ''missedCall'') False))))) = 1"
proof -
  have w: "hasWindow sample_env (S ''15551234567'') =
     Some \<lparr>w_device = Some (S ''phone''), w_number = S ''+1 (555) 123-4567''\<rparr>"
    by (rule sample_hasWindow)
  have bits: "allow sample_env AND Allow_SMS sample_env \<noteq> 0"
    "allow sample_env AND Allow_CALLS sample_env \<noteq> 0"
    by (simp_all add: sample_env_def)
  have kinds: "S ''missedCall'' \<noteq> S ''sms''"
    by (simp add: S_def)
  have sms: "length (filter is_send (fst (snd (handlePacket sample_env \<lparr>media_state = None\<rparr>
                                       (sample_packet (S ''sms'') False))))) = 1"
    using w bits
    by (cases "parsePacket sample_env (sample_packet (S ''sms'') False)")
       (use sample_event[of "S ''sms''"] sample_parse_effects[of "S ''sms''"] in
         \<open>simp add: handlePacket_def dispatch_def onSms_def in_window_def event_signal_def Let_def\<close>)
  have mc: "length (filter is_send (fst (snd (handlePacket sample_env \<lparr>media_state = None\<rparr>
                                       (sample_packet (S ''missedCall'') False))))) = 1"
    using w bits kinds
    by (cases "parsePacket sample_env (sample_packet (S ''missedCall'') False)")
       (use sample_event[of "S ''missedCall''"] sample_parse_effects[of "S ''missedCall''"] in
         \<open>simp add: handlePacket_def dispatch_def onMissedCall_def in_window_def event_signal_def Let_def\<close>)
  from w sms mc show ?thesis by blast
qed

text \<open>
  Claim C1, amended. With the permission granted the dispatcher runs \<open>_onSms\<close> on an
  \<open>sms\<close> event and \<open>_onMissedCall\<close> on a \<open>missedCall\<close> event. For such an event with a
  phone number: one system notification is sent whether or not a window is found; when \<open>_hasWindow\<close> finds a window
  the event is also passed to that window's \<open>receiveMessage\<close> and, with the notification
  plugin loaded, \<open>markDuplicate\<close> is called with \<open>isCancel\<close> for the \<open>localId\<close> registered
  at the start of the handler; with no window there is neither.
\<close>

theorem window_logged_and_notified:
  "phoneNumber ev = Some number \<Longrightarrow>
     (event ev = S ''sms'' \<and> allow e AND Allow_SMS e \<noteq> 0 \<longrightarrow>
        fst (snd (dispatch e p ev)) = fst (onSms e ev)) \<and>
     (event ev = S ''missedCall'' \<and> allow e AND Allow_CALLS e \<noteq> 0 \<longrightarrow>
        fst (snd (dispatch e p ev)) = fst (onMissedCall e ev)) \<and>
     length (filter is_send (fst (onSms e ev))) = 1 \<and>
     length (filter is_send (fst (onMissedCall e ev))) = 1 \<and>
     (\<forall>w. hasWindow e number = Some w \<longrightarrow>
        filter is_receive (fst (onSms e ev)) =
          [ReceiveMessage w (contact ev) number (opt_val (messageBody ev))] \<and>
        filter is_receive (fst (onMissedCall e ev)) =
          [ReceiveMessage w (contact ev) number
             (Str (S ''<i>'' @ format e (gettext e (S ''Missed call at %s'')) [Num (time ev)]
                   @ S ''</i>''))] \<and>
        (notification_plugin e \<longrightarrow>
           filter is_cancel_mark (fst (onSms e ev)) =
             [MarkDuplicate (S ''sms|'' @ ToString_int (time ev)) (window_ticker ev) True] \<and>
           MarkDuplicate (S ''sms|'' @ ToString_int (time ev)) (window_ticker ev) False
             \<in> set (fst (onSms e ev)) \<and>
           filter is_cancel_mark (fst (onMissedCall e ev)) =
             [MarkDuplicate (S ''missedCall|'' @ ToString_int (time ev)) (window_ticker ev) True] \<and>
           MarkDuplicate (S ''missedCall|'' @ ToString_int (time ev))
               (gettext e (S ''Missed call'') @ S '': '' @ name (contact ev)) False
             \<in> set (fst (onMissedCall e ev)))) \<and>
     (hasWindow e number = None \<longrightarrow>
        filter is_receive (fst (onSms e ev)) = [] \<and>
        filter is_cancel_mark (fst (onSms e ev)) = [] \<and>
        filter is_receive (fst (onMissedCall e ev)) = [] \<and>
        filter is_cancel_mark (fst (onMissedCall e ev)) = [])"
proof -
  assume n: "phoneNumber ev = Some number"
  have kinds: "S ''missedCall'' \<noteq> S ''sms''"
    by (simp add: S_def)
  have d1: "event ev = S ''sms'' \<and> allow e AND Allow_SMS e \<noteq> 0 \<longrightarrow>
        fst (snd (dispatch e p ev)) = fst (onSms e ev)"
    by (cases "onSms e ev") (simp add: dispatch_def)
  have d2: "event ev = S ''missedCall'' \<and> allow e AND Allow_CALLS e \<noteq> 0 \<longrightarrow>
        fst (snd (dispatch e p ev)) = fst (onMissedCall e ev)"
    using kinds by (cases "onMissedCall e ev") (simp add: dispatch_def)
  have h: "length (filter is_send (fst (onSms e ev))) = 1 \<and>
     length (filter is_send (fst (onMissedCall e ev))) = 1 \<and>
     (\<forall>w. hasWindow e number = Some w \<longrightarrow>
        filter is_receive (fst (onSms e ev)) =
          [ReceiveMessage w (contact ev) number (opt_val (messageBody ev))] \<and>
        filter is_receive (fst (onMissedCall e ev)) =
          [ReceiveMessage w (contact ev) number
             (Str (S ''<i>'' @ format e (gettext e (S ''Missed call at %s'')) [Num (time ev)]
                   @ S ''</i>''))] \<and>
        (notification_plugin e \<longrightarrow>
           filter is_cancel_mark (fst (onSms e ev)) =
             [MarkDuplicate (S ''sms|'' @ ToString_int (time ev)) (window_ticker ev) True] \<and>
           MarkDuplicate (S ''sms|'' @ ToString_int (time ev)) (window_ticker ev) False
             \<in> set (fst (onSms e ev)) \<and>
           filter is_cancel_mark (fst (onMissedCall e ev)) =
             [MarkDuplicate (S ''missedCall|'' @ ToString_int (time ev)) (window_ticker ev) True] \<and>
           MarkDuplicate (S ''missedCall|'' @ ToString_int (time ev))
               (gettext e (S ''Missed call'') @ S '': '' @ name (contact ev)) False
             \<in> set (fst (onMissedCall e ev)))) \<and>
     (hasWindow e number = None \<longrightarrow>
        filter is_receive (fst (onSms e ev)) = [] \<and>
        filter is_cancel_mark (fst (onSms e ev)) = [] \<and>
        filter is_receive (fst (onMissedCall e ev)) = [] \<and>
        filter is_cancel_mark (fst (onMissedCall e ev)) = [])"
    using n by (cases "hasWindow e number")
       (simp_all add: onSms_def onMissedCall_def in_window_def Let_def)
  show ?thesis by (rule conjI[OF d1 conjI[OF d2 h]])
qed

text \<open>
  The SMS from Ann on the sample device, whose conversation is open.
\<close>

theorem window_logged_and_notified_witness:
  "phoneNumber (snd (parsePacket sample_env (sample_packet (S ''sms'') False)))
     = Some (S ''15551234567'') \<and>
   hasWindow sample_env (S ''15551234567'') =
     Some \<lparr>w_device = Some (S ''phone''), w_number = S ''+1 (555) 123-4567''\<rparr> \<and>
   notification_plugin sample_env \<and>
   length (filter is_send
     (fst (onSms sample_env (snd (parsePacket sample_env (sample_packet (S ''sms'') False)))))) = 1 \<and>
   filter is_receive
     (fst (onSms sample_env (snd (parsePacket sample_env (sample_packet (S ''sms'') False))))) =
     [ReceiveMessage \<lparr>w_device = Some (S ''phone''), w_number = S ''+1 (555) 123-4567''\<rparr>
        \<lparr>name = S ''Ann'', avatar = None\<rparr> (S ''15551234567'') (Str (S ''hi''))]"
proof -
  let ?ev = "snd (parsePacket sample_env (sample_packet (S ''sms'') False))"
  let ?w = "\<lparr>w_device = Some (S ''phone''), w_number = S ''+1 (555) 123-4567''\<rparr>"
  have n: "phoneNumber ?ev = Some (S ''15551234567'')"
    by (simp add: sample_event)
  have w: "hasWindow sample_env (S ''15551234567'') = Some ?w"
    by (rule sample_hasWindow)
  have np: "notification_plugin sample_env"
    by (simp add: sample_env_def)
  have f: "contact ?ev = \<lparr>name = S ''Ann'', avatar = None\<rparr>"
    "opt_val (messageBody ?ev) = Str (S ''hi'')"
    by (simp_all add: sample_event)
  from window_logged_and_notified[OF n, of sample_env] w
  have "length (filter is_send (fst (onSms sample_env ?ev))) = 1 \<and>
        filter is_receive (fst (onSms sample_env ?ev)) =
          [ReceiveMessage ?w (contact ?ev) (S ''15551234567'') (opt_val (messageBody ?ev))]"
    by blast
  with n w np f show ?thesis by simp
qed

section \<open>The sms: URI codec\<close>


lemma rxm_Bos_later: "0 < pos st \<Longrightarrow> rxm (Seq Bos r) st = []"
  by simp

lemma exec_from_later: "0 < i \<Longrightarrow> exec_from (Seq Bos r) i s = None"
proof (induction s arbitrary: i)
  case Nil
  then show ?case by (subst exec_from.simps) simp
next
  case (Cons x xs)
  have "exec_from (Seq Bos r) (Suc i) xs = None"
    by (rule Cons.IH) simp
  with Cons.prems show ?case by (subst exec_from.simps) simp
qed

lemma strip_prefix_Some: "strip_prefix p s = Some t \<Longrightarrow> s = p @ t"
  by (induction p s rule: strip_prefix.induct) (auto split: if_splits)

lemma rxm_sound:
  "st' \<in> set (rxm r st) \<Longrightarrow> \<exists>w \<in> lang r. consumes st w st'"
proof (induction r st arbitrary: st' rule: rxm.induct)
  case (1 items st)
  then show ?case
    by (cases "rest st") (auto simp add: consumes_def split: if_splits)
next
  case (2 l st)
  then show ?case
    by (cases "strip_prefix (S l) (rest st)")
       (auto simp add: consumes_def S_def dest: strip_prefix_Some)
next
  case (3 a b st)
  from "3.prems" obtain mid where mid: "mid \<in> set (rxm a st)" and st': "st' \<in> set (rxm b mid)"
    by auto
  from "3.IH"(1)[OF mid] obtain x where x: "x \<in> lang a" "consumes st x mid" by blast
  from "3.IH"(2)[OF mid st'] obtain y where y: "y \<in> lang b" "consumes mid y st'" by blast
  from x y have "x @ y \<in> lang (Seq a b)" "consumes st (x @ y) st'"
    by (auto simp add: consumes_def)
  then show ?case by blast
next
  case (4 a b st)
  then show ?case by auto
next
  case (5 r st)
  from "5.prems"(1) have "st' = st \<or> (\<exists>mid \<in> set (rxm r st). length (rest mid) < length (rest st)
      \<and> st' \<in> set (rxm (Star r) mid))"
    unfolding rxm.simps(5)[of r st] by (auto split: if_splits)
  then show ?case
  proof
    assume "st' = st"
    then have "consumes st [] st'" by (simp add: consumes_def)
    moreover have "[] \<in> lang (Star r)"
      by (simp, rule exI[of _ "[]"]) simp
    ultimately show ?thesis by blast
  next
    assume "\<exists>mid \<in> set (rxm r st). length (rest mid) < length (rest st)
      \<and> st' \<in> set (rxm (Star r) mid)"
    then obtain mid where mid: "mid \<in> set (rxm r st)" "length (rest mid) < length (rest st)"
      "st' \<in> set (rxm (Star r) mid)" by blast
    from "5.IH"(1)[OF mid(1)] obtain x where x: "x \<in> lang r" "consumes st x mid" by blast
    from "5.IH"(2)[OF mid(1) mid(2) mid(3)] obtain y where y: "y \<in> lang (Star r)" "consumes mid y st'"
      by blast
    from y(1) obtain ws where ws: "y = concat ws" "set ws \<subseteq> lang r" by auto
    from x(1) ws have "x @ y = concat (x # ws)" "set (x # ws) \<subseteq> lang r" by auto
    then have "x @ y \<in> lang (Star r)" by (simp, blast)
    moreover from x(2) y(2) have "consumes st (x @ y) st'" by (auto simp add: consumes_def)
    ultimately show ?thesis by blast
  qed
next
  case (6 n r st)
  then show ?case by (auto simp add: consumes_def)
next
  case (7 r st)
  then show ?case by (auto simp add: consumes_def split: if_splits)
next
  case (8 st)
  then show ?case by (auto simp add: consumes_def split: if_splits)
next
  case (9 st)
  then show ?case by (auto simp add: consumes_def split: if_splits)
qed

lemma rxm_caps_frame:
  "st' \<in> set (rxm r st) \<Longrightarrow> n \<notin> groups r \<Longrightarrow> caps st' n = caps st n"
proof (induction r st arbitrary: st' rule: rxm.induct)
  case (1 items st)
  then show ?case by (cases "rest st") (auto split: if_splits)
next
  case (2 l st)
  then show ?case by (cases "strip_prefix (S l) (rest st)") auto
next
  case (3 a b st)
  from "3.prems" obtain mid where mid: "mid \<in> set (rxm a st)" and st': "st' \<in> set (rxm b mid)"
    by auto
  from "3.IH"(1)[OF mid] "3.IH"(2)[OF mid st'] "3.prems"(2) show ?case by simp
next
  case (4 a b st)
  then show ?case by auto
next
  case (5 r st)
  from "5.prems"(1) have "st' = st \<or> (\<exists>mid \<in> set (rxm r st). length (rest mid) < length (rest st)
      \<and> st' \<in> set (rxm (Star r) mid))"
    unfolding rxm.simps(5)[of r st] by (auto split: if_splits)
  then show ?case
  proof
    assume "st' = st"
    then show ?thesis by simp
  next
    assume "\<exists>mid \<in> set (rxm r st). length (rest mid) < length (rest st)
      \<and> st' \<in> set (rxm (Star r) mid)"
    then obtain mid where mid: "mid \<in> set (rxm r st)" "length (rest mid) < length (rest st)"
      "st' \<in> set (rxm (Star r) mid)" by blast
    from "5.prems"(2) have n: "n \<notin> groups r" by simp
    have "caps mid n = caps st n"
      by (rule "5.IH"(1)[OF mid(1) n])
    moreover have "caps st' n = caps mid n"
      by (rule "5.IH"(2)[OF mid(1) mid(2) mid(3) "5.prems"(2)])
    ultimately show ?thesis by simp
  qed
next
  case (6 m r st)
  then show ?case by auto
next
  case (7 r st)
  then show ?case by (auto split: if_splits)
next
  case (8 st)
  then show ?case by (auto split: if_splits)
next
  case (9 st)
  then show ?case by (auto split: if_splits)
qed

lemma rxm_Grp_caps:
  assumes "st' \<in> set (rxm (Grp n r) st)"
  shows "\<exists>w \<in> lang r. consumes st w st' \<and> caps st' n = Some w"
proof -
  from assms obtain st'' where s: "st'' \<in> set (rxm r st)"
    and e: "st' = st''\<lparr>caps := (caps st'')(n \<mapsto> take (pos st'' - pos st) (rest st))\<rparr>"
    by auto
  from rxm_sound[OF s] obtain w where w: "w \<in> lang r" "consumes st w st''" by blast
  from w(2) e have "consumes st w st'" "caps st' n = Some w"
    by (simp_all add: consumes_def)
  with w(1) show ?thesis by blast
qed

lemma avoids_lang: "avoids c r \<Longrightarrow> w \<in> lang r \<Longrightarrow> c \<notin> set w"
proof (induction r arbitrary: w)
  case (Star r)
  from Star.prems(2) obtain ws where ws: "w = concat ws" "set ws \<subseteq> lang r" by auto
  from Star.IH Star.prems(1) ws(2) have "\<forall>x \<in> set ws. c \<notin> set x" by auto
  with ws(1) show ?case by auto
qed auto

lemma exec_first:
  assumes "exec r s = Some m" and later: "\<And>s'. exec_from r (Suc 0) s' = None"
  shows "m \<in> set (rxm r \<lparr>pos = 0, rest = s, caps = Map.empty\<rparr>)"
proof (cases "rxm r \<lparr>pos = 0, rest = s, caps = Map.empty\<rparr>")
  case Nil
  have "exec_from r 0 s = None"
    by (subst exec_from.simps) (simp add: Nil later split: list.split)
  with assms(1) show ?thesis by (simp add: exec_def)
next
  case (Cons st sts)
  have "exec_from r 0 s = Some st"
    by (subst exec_from.simps) (simp add: Cons)
  with assms(1) Cons show ?thesis by (simp add: exec_def)
qed

lemma rxm_Seq_member:
  "m \<in> set (rxm (Seq a b) st) \<Longrightarrow> \<exists>mid \<in> set (rxm a st). m \<in> set (rxm b mid)"
  by auto

lemma rxm_Bos_member: "m \<in> set (rxm Bos st) \<Longrightarrow> m = st"
  by (auto split: if_splits)

lemma rxm_Eos_member: "m \<in> set (rxm Eos st) \<Longrightarrow> m = st \<and> rest st = []"
  by (auto split: if_splits)

lemma rxm_Lit_Nil_member: "m \<in> set (rxm (Lit []) st) \<Longrightarrow> m = st"
  by (simp add: S_def)

lemma startsWith_append: "startsWith s p \<longleftrightarrow> (\<exists>t. s = p @ t)"
  by (induction s p rule: startsWith.induct) auto


















text \<open>
  Claim C9. The value with recipients \<open>15551234567\<close> and body \<open>hello\<close> is written as
  \<open>sms:15551234567?body=hello\<close>; parsing that and writing the result gives the same text.
\<close>

theorem roundtrip_hello:
  "map_sum id SmsURI_toString
     (SmsURI_init (SmsURI_toString \<lparr>recipients = [S ''15551234567''], body = Some (S ''hello'')\<rparr>))
   = Inr (SmsURI_toString \<lparr>recipients = [S ''15551234567''], body = Some (S ''hello'')\<rparr>)
   \<and> SmsURI_toString \<lparr>recipients = [S ''15551234567''], body = Some (S ''hello'')\<rparr>
     = S ''sms:15551234567?body=hello''"
  by (simp add: uri_eval)

text \<open>
  Claim C2 at its failing input: a second \<open>body\<close> field after an empty one is accepted and
  its value kept, where \<open>sms:111?body=a&body=b\<close> is refused as the claim says.
\<close>

theorem duplicate_body_after_empty:
  "SmsURI_init (S ''sms:111?body=&body=b'') = Inr \<lparr>recipients = [S ''111''], body = Some (S ''b'')\<rparr>
   \<and> SmsURI_init (S ''sms:111?body=a&body=b'') = Inl DuplicateField"
  by (simp add: uri_eval)

text \<open>
  Claim C4 as stated fails: \<open>body=\<close> leaves the body \<open>undefined\<close>, not the empty string.
\<close>

theorem empty_body_is_absent:
  "SmsURI_init (S ''sms:111?body='') = Inr \<lparr>recipients = [S ''111''], body = None\<rparr>
   \<and> SmsURI_init (S ''sms:111?body='') \<noteq> Inr \<lparr>recipients = [S ''111''], body = Some []\<rparr>"
  by (simp add: uri_eval)

lemma phone_context_example:
  "SmsURI_init (S ''sms:5551234;phone-context=+1'') = Inr \<lparr>recipients = [S ''+15551234''], body = None\<rparr>"
  by (simp add: uri_eval)

lemma no_eq_example: "SmsURI_init (S ''sms:111?body'') = Inl MalformedUri"
  by (simp add: uri_eval)

lemma split_absent: "c \<notin> set v \<Longrightarrow> split c v = [v]"
  by (induction v) auto

text \<open>
  Claim C4, amended. In the loop over the query, a \<open>body\<close> field with an empty value
  leaves the body \<open>undefined\<close>, as a \<open>body\<close> field with no \<open>=\<close> does (a URI with such a
  field does not pass the pattern at all); a non-empty value is decoded by
  \<open>decodeURIComponent\<close>, whose exception ends the parse.
\<close>

theorem body_field_value:
  "of_char CHR ''='' \<notin> set v \<Longrightarrow>
     query_loop None [S ''body='' @ v] =
       (if v = [] then Inr None else map_sum id Some (decodeURIComponent v)) \<and>
     query_loop None [S ''body''] = Inr None \<and>
     SmsURI_init (S ''sms:111?body'') = Inl MalformedUri"
proof -
  assume v: "of_char CHR ''='' \<notin> set v"
  have sp: "split 61 (S ''body='' @ v) = [S ''body'', v]"
    using split_absent[OF v] by (simp add: S_def)
  have a: "query_loop None [S ''body='' @ v] =
       (if v = [] then Inr None else map_sum id Some (decodeURIComponent v))"
  proof (cases "v = []")
    case True
    then show ?thesis by (simp add: S_def)
  next
    case False
    then show ?thesis
      by (cases "decodeURIComponent v") (simp_all add: sp)
  qed
  have b: "query_loop None [S ''body''] = Inr None"
    by (simp add: S_def)
  from a b no_eq_example show ?thesis by (intro conjI)
qed

text \<open>
  The values \<open>a%20b\<close> and the empty one.
\<close>

theorem body_field_value_witness:
  "of_char CHR ''='' \<notin> set (S ''a%20b'') \<and>
   query_loop None [S ''body=a%20b''] = Inr (Some (S ''a b'')) \<and>
   query_loop None [S ''body=''] = Inr None"
proof -
  have v: "of_char CHR ''='' \<notin> set (S ''a%20b'')" "of_char CHR ''='' \<notin> set ([] :: jsstring)"
    by (simp_all add: S_def)
  have d: "decodeURIComponent (S ''a%20b'') = Inr (S ''a b'')"
    by (simp add: S_def hex_at_def hexval_def utf8_len_def)
  have e: "S ''body='' @ S ''a%20b'' = S ''body=a%20b''" "S ''body='' @ [] = S ''body=''"
    "S ''a%20b'' \<noteq> []"
    by (simp_all add: S_def)
  from body_field_value[OF v(1), THEN conjunct1] e(3)
  have "query_loop None [S ''body='' @ S ''a%20b''] = map_sum id Some (decodeURIComponent (S ''a%20b''))"
    by (simp only: if_False)
  then have a: "query_loop None [S ''body=a%20b''] = Inr (Some (S ''a b''))"
    by (simp only: e(1) d map_sum.simps id_apply)
  from body_field_value[OF v(2), THEN conjunct1]
  have "query_loop None [S ''body='' @ []] = Inr None"
    by (simp only: refl if_True)
  then have b: "query_loop None [S ''body=''] = Inr None"
    by (simp only: e(2))
  from v(1) a b show ?thesis by (intro conjI)
qed

subsection \<open>The number pattern and the recipient rewrite\<close>

lemma numberRegex_shape:
  "numberRegex = Seq Bos (Seq (Grp 1 lenientDigits) (Seq (Grp 2 (Star telParam)) (Seq Eos (Lit []))))"
  by (simp add: numberRegex_def Seqs_def)

lemma telParam_groups: "groups telParam = {}"
  by (simp add: rx_defs)

lemma numberRegex_match:
  assumes "exec numberRegex r = Some m"
  shows "\<exists>d p. d \<in> lang lenientDigits \<and> p \<in> lang (Star telParam) \<and> r = d @ p \<and>
           caps m 1 = Some d \<and> caps m 2 = Some p"
proof -
  let ?st0 = "\<lparr>pos = 0, rest = r, caps = Map.empty\<rparr>"
  have "\<And>s'. exec_from numberRegex (Suc 0) s' = None"
    unfolding numberRegex_shape by (rule exec_from_later) simp
  with assms have "m \<in> set (rxm numberRegex ?st0)"
    by (rule exec_first)
  then obtain st1 where st1: "st1 \<in> set (rxm Bos ?st0)"
    and m1: "m \<in> set (rxm (Seq (Grp 1 lenientDigits) (Seq (Grp 2 (Star telParam))
                              (Seq Eos (Lit [])))) st1)"
    unfolding numberRegex_shape by (blast dest: rxm_Seq_member)
  from rxm_Bos_member[OF st1] m1 obtain st2 where st2: "st2 \<in> set (rxm (Grp 1 lenientDigits) ?st0)"
    and m2: "m \<in> set (rxm (Seq (Grp 2 (Star telParam)) (Seq Eos (Lit []))) st2)"
    by (blast dest: rxm_Seq_member)
  from m2 obtain st3 where st3: "st3 \<in> set (rxm (Grp 2 (Star telParam)) st2)"
    and m3: "m \<in> set (rxm (Seq Eos (Lit [])) st3)"
    by (blast dest: rxm_Seq_member)
  from m3 obtain st4 where st4: "st4 \<in> set (rxm Eos st3)" and m4: "m \<in> set (rxm (Lit []) st4)"
    by (blast dest: rxm_Seq_member)
  from rxm_Eos_member[OF st4] rxm_Lit_Nil_member[OF m4]
  have fin: "rest st3 = []" "caps m = caps st3"
    by simp_all
  from rxm_Grp_caps[OF st2] obtain d where d: "d \<in> lang lenientDigits" "consumes ?st0 d st2"
    "caps st2 1 = Some d" by blast
  from rxm_Grp_caps[OF st3] obtain p where p: "p \<in> lang (Star telParam)" "consumes st2 p st3"
    "caps st3 2 = Some p" by blast
  have "caps st3 1 = caps st2 1"
    by (rule rxm_caps_frame[OF st3]) (simp add: telParam_groups)
  with d p fin have "r = d @ p" "caps m 1 = Some d" "caps m 2 = Some p"
    by (simp_all add: consumes_def)
  with d(1) p(1) show ?thesis by blast
qed

lemma telParam_words:
  assumes "t \<in> lang telParam"
  shows "\<exists>q. t = 59 # q \<and> tel_param q"
proof -
  let ?K = "Plus (Cls [R CHR ''a'' CHR ''z'', R CHR ''A'' CHR ''Z'', R CHR ''0'' CHR ''9'',
                      C CHR ''-''])"
  let ?V = "Plus (Alt (Cls (word_chars @ map C ''[]/:&+$'' @ mark_chars)) pct)"
  have shape: "telParam = Seq (Lit '';'') (Seq ?K (Seq (Lit ''='') (Seq ?V (Lit []))))"
    by (simp add: telParam_def Seqs_def)
  from assms obtain k v where t: "t = S '';'' @ k @ S ''='' @ v" and k: "k \<in> lang ?K" and v: "v \<in> lang ?V"
    unfolding shape by (auto simp add: S_def)
  have av: "avoids 59 ?K" "avoids 61 ?K" "avoids 59 ?V" "avoids 61 ?V"
    by (simp_all add: rx_defs S_def)
  from avoids_lang[OF av(1) k] avoids_lang[OF av(2) k] avoids_lang[OF av(3) v] avoids_lang[OF av(4) v] t
  show ?thesis by (auto simp add: tel_param_def S_def)
qed

lemma split_sep: "c \<notin> set a \<Longrightarrow> split c (a @ c # xs) = a # split c xs"
  by (induction a) auto

lemma split_pieces:
  "\<forall>t \<in> set ts. \<exists>b. t = c # b \<and> c \<notin> set b \<Longrightarrow> c \<notin> set a \<Longrightarrow>
     split c (a @ concat ts) = a # map tl ts"
proof (induction ts arbitrary: a)
  case Nil
  then show ?case by (simp add: split_absent)
next
  case (Cons t ts)
  from Cons.prems(1) obtain b where b: "t = c # b" "c \<notin> set b" by auto
  from Cons.prems(1) have rest: "\<forall>t \<in> set ts. \<exists>b. t = c # b \<and> c \<notin> set b" by simp
  have "split c (a @ concat (t # ts)) = split c (a @ c # (b @ concat ts))"
    by (simp add: b(1))
  also have "\<dots> = a # split c (b @ concat ts)"
    by (rule split_sep[OF Cons.prems(2)])
  also have "\<dots> = a # b # map tl ts"
    by (simp add: Cons.IH[OF rest b(2)])
  finally show ?case by (simp add: b(1))
qed

lemma first_sep_unique:
  "a @ c # b = a' @ c # b' \<Longrightarrow> c \<notin> set a \<Longrightarrow> c \<notin> set a' \<Longrightarrow> a = a' \<and> b = b'"
proof (induction a arbitrary: a')
  case Nil
  then show ?case by (cases a') auto
next
  case (Cons x a)
  then show ?case by (cases a') auto
qed

lemma plus_context_param:
  assumes "61 \<notin> set k" "61 \<notin> set v"
  shows "startsWith (k @ 61 # v) (S ''phone-context=+'')
           \<longleftrightarrow> k = S ''phone-context'' \<and> startsWith v (S ''+'')"
proof
  assume "startsWith (k @ 61 # v) (S ''phone-context=+'')"
  then obtain t where "k @ 61 # v = S ''phone-context=+'' @ t"
    by (auto simp add: startsWith_append)
  then have e: "k @ 61 # v = S ''phone-context'' @ 61 # (S ''+'' @ t)"
    by (simp add: S_def)
  have "61 \<notin> set (S ''phone-context'')"
    by (simp add: S_def)
  from first_sep_unique[OF e assms(1) this]
  show "k = S ''phone-context'' \<and> startsWith v (S ''+'')"
    by (auto simp add: startsWith_append)
next
  assume "k = S ''phone-context'' \<and> startsWith v (S ''+'')"
  then obtain t where "k = S ''phone-context''" "v = S ''+'' @ t"
    by (auto simp add: startsWith_append)
  then have "k @ 61 # v = S ''phone-context=+'' @ t"
    by (simp add: S_def)
  then show "startsWith (k @ 61 # v) (S ''phone-context=+'')"
    by (auto simp add: startsWith_append)
qed

lemma params_loop_find:
  "\<forall>q \<in> set qs. tel_param q \<Longrightarrow>
     params_loop number qs =
       Inr (case find (\<lambda>q. startsWith q (S ''phone-context=+'')) qs of
              None \<Rightarrow> unescape number
            | Some q \<Rightarrow> drop (length ''phone-context='') q @ unescape number)"
proof (induction qs)
  case Nil
  then show ?case by simp
next
  case (Cons q qs)
  from Cons.prems obtain k v where q: "q = k @ 61 # v" and kv: "61 \<notin> set k" "61 \<notin> set v"
    by (auto simp add: tel_param_def)
  from Cons have ih: "params_loop number qs =
       Inr (case find (\<lambda>q. startsWith q (S ''phone-context=+'')) qs of
              None \<Rightarrow> unescape number
            | Some q \<Rightarrow> drop (length ''phone-context='') q @ unescape number)"
    by simp
  have sp: "split 61 q = [k, v]"
    unfolding q using split_sep[OF kv(1), of v] split_absent[OF kv(2)] by simp
  note pc = plus_context_param[OF kv, folded q]
  show ?case
  proof (cases "startsWith q (S ''phone-context=+'')")
    case True
    with pc have k: "k = S ''phone-context''" and plus: "startsWith v (S ''+'')" by simp_all
    have "drop (length ''phone-context='') q = v"
      by (simp add: q k S_def)
    with True k plus sp show ?thesis by simp
  next
    case False
    with pc have "\<not> (k = S ''phone-context'' \<and> startsWith v (S ''+''))" by simp
    with False sp ih show ?thesis by auto
  qed
qed

lemma tel_param_no_semicolon: "tel_param q \<Longrightarrow> 59 \<notin> set q"
  by (auto simp add: tel_param_def)

lemma tel_params_split:
  assumes "p \<in> lang (Star telParam)" "p \<noteq> []"
  shows "\<forall>q \<in> set (split 59 (drop 1 p)). tel_param q"
proof -
  from assms(1) obtain ts where ts: "p = concat ts" "set ts \<subseteq> lang telParam" by auto
  then have each: "\<forall>t \<in> set ts. \<exists>q. t = 59 # q \<and> tel_param q"
    using telParam_words by blast
  from assms(2) ts(1) obtain t ts' where c: "ts = t # ts'" by (cases ts) auto
  from each c obtain q0 where q0: "t = 59 # q0" "tel_param q0" by auto
  from each c have tail: "\<forall>t \<in> set ts'. \<exists>b. t = 59 # b \<and> 59 \<notin> set b"
    using tel_param_no_semicolon by auto
  have "drop 1 p = q0 @ concat ts'"
    by (simp add: ts(1) c q0(1))
  then have "split 59 (drop 1 p) = q0 # map tl ts'"
    using split_pieces[OF tail tel_param_no_semicolon[OF q0(2)]] by simp
  moreover from each c have "\<forall>q \<in> set (map tl ts'). tel_param q" by auto
  ultimately show ?thesis using q0(2) by simp
qed

lemma hex_at_2_Some:
  "hex_at 2 cs = Some v \<longleftrightarrow> (\<exists>a b cs' x y. cs = a # b # cs' \<and> hexval a = Some x \<and> hexval b = Some y \<and> v = 16 * x + y)"
  by (cases cs; cases "tl cs") (auto simp add: hex_at_def split: option.splits)

lemma unescape_plain: "c \<noteq> 37 \<Longrightarrow> unescape (c # cs) = c # unescape cs"
  by simp

lemma percent_decode_plain: "c \<noteq> 37 \<Longrightarrow> percent_decode (c # cs) = c # percent_decode cs"
  by simp

lemma unescape_pct:
  "a \<noteq> 117 \<Longrightarrow> hexval a = Some x \<Longrightarrow> hexval b = Some y \<Longrightarrow>
     unescape (37 # a # b # cs) = (16 * x + y) # unescape cs"
  by (simp add: hex_at_def)

lemma percent_decode_pct:
  "hexval a = Some x \<Longrightarrow> hexval b = Some y \<Longrightarrow>
     percent_decode (37 # a # b # cs) = (16 * x + y) # percent_decode cs"
  by simp

lemma unescape_stray:
  "\<not> startsWith cs [117] \<Longrightarrow> hex_at 2 cs = None \<Longrightarrow> unescape (37 # cs) = 37 # unescape cs"
  by simp

lemma percent_decode_stray:
  "hex_at 2 cs = None \<Longrightarrow> percent_decode (37 # cs) = 37 # percent_decode cs"
  by (cases cs; cases "tl cs") (auto simp add: hex_at_def split: option.splits)

lemma unescape_percent_decode:
  "117 \<notin> set s \<Longrightarrow> unescape s = percent_decode s"
proof (induction s rule: length_induct)
  case (1 s)
  show ?case
  proof (cases s)
    case Nil
    then show ?thesis by simp
  next
    case (Cons c cs)
    note s = this
    from "1.prems" s have nu: "\<not> startsWith cs [117]" and fresh: "117 \<notin> set cs"
      by (cases cs, auto)
    have ih: "unescape cs = percent_decode cs"
      using "1.IH" s fresh by simp
    show ?thesis
    proof (cases "c = 37")
      case False
      then show ?thesis
        unfolding s by (simp only: unescape_plain[OF False] percent_decode_plain[OF False] ih)
    next
      case True
      note c = this
      show ?thesis
      proof (cases "hex_at 2 cs")
        case None
        show ?thesis
          unfolding s c by (simp only: unescape_stray[OF nu None] percent_decode_stray[OF None] ih)
      next
        case (Some v)
        then obtain a b cs' x y where e: "cs = a # b # cs'" "hexval a = Some x" "hexval b = Some y"
          by (auto simp add: hex_at_2_Some)
        from fresh e(1) have a: "a \<noteq> 117" and fresh': "117 \<notin> set cs'" by auto
        have "unescape cs' = percent_decode cs'"
          using "1.IH" s e(1) fresh' by simp
        then show ?thesis
          unfolding s c e(1)
          by (simp only: unescape_pct[OF a e(2) e(3)] percent_decode_pct[OF e(2) e(3)])
      qed
    qed
  qed
qed

lemma lenientDigits_unescape:
  assumes "d \<in> lang lenientDigits"
  shows "unescape d = percent_decode d"
proof -
  have "avoids 117 lenientDigits"
    by (simp add: rx_defs S_def)
  from avoids_lang[OF this assms] show ?thesis
    by (rule unescape_percent_decode)
qed

lemma lenientDigits_no_semicolon:
  assumes "d \<in> lang lenientDigits"
  shows "59 \<notin> set d"
proof -
  have "avoids 59 lenientDigits"
    by (simp add: rx_defs S_def)
  from avoids_lang[OF this assms] show ?thesis .
qed

lemma tel_params_head:
  assumes "p \<in> lang (Star telParam)"
  shows "p = [] \<or> (\<exists>p'. p = 59 # p')"
proof -
  from assms obtain ts where ts: "p = concat ts" "set ts \<subseteq> lang telParam" by auto
  show ?thesis
  proof (cases ts)
    case Nil
    with ts show ?thesis by simp
  next
    case (Cons t ts')
    with ts telParam_words[of t] show ?thesis by auto
  qed
qed

lemma map_recipient_promoted:
  assumes "exec numberRegex r = Some m"
  shows "\<exists>number params. caps m 1 = Some number \<and> caps m 2 = Some params \<and> r = number @ params \<and>
           spec_recipient r = promoted number params \<and>
           map_recipient r = Inr (promoted number params)"
proof -
  from numberRegex_match[OF assms] obtain d p where d: "d \<in> lang lenientDigits"
    and p: "p \<in> lang (Star telParam)" and r: "r = d @ p"
    and c: "caps m 1 = Some d" "caps m 2 = Some p" by blast
  from tel_params_head[OF p] lenientDigits_no_semicolon[OF d]
  have tw: "takeWhile (\<lambda>u. u \<noteq> 59) r = d" "dropWhile (\<lambda>u. u \<noteq> 59) r = p"
    unfolding r by (auto simp add: takeWhile_tail dropWhile_append3)
  have sr: "spec_recipient r = promoted d p"
    by (simp add: spec_recipient_def tw)
  note ud = lenientDigits_unescape[OF d]
  have "map_recipient r = Inr (promoted d p)"
  proof (cases "p = []")
    case True
    with assms c show ?thesis
      by (simp add: map_recipient_def promoted_def S_def ud)
  next
    case False
    from params_loop_find[OF tel_params_split[OF p False], of d, unfolded ud] False assms c
    show ?thesis
      by (simp add: map_recipient_def promoted_def)
  qed
  with c r sr show ?thesis by blast
qed

lemma map_recipient_spec:
  "exec numberRegex r = Some m \<Longrightarrow> map_recipient r = Inr (spec_recipient r)"
  using map_recipient_promoted[of r m] by auto

lemma map_recipient_Inr: "map_recipient r = Inr x \<Longrightarrow> x = spec_recipient r"
  using map_recipient_spec[of r]
  by (cases "exec numberRegex r") (simp_all add: map_recipient_def)

lemma map_recipients_spec: "map_recipients rs = Inr xs \<Longrightarrow> xs = map spec_recipient rs"
proof (induction rs arbitrary: xs)
  case Nil
  then show ?case by simp
next
  case (Cons r rs)
  show ?case
  proof (cases "map_recipient r")
    case (Inl e)
    with Cons.prems show ?thesis by simp
  next
    case (Inr x)
    note x = this
    show ?thesis
    proof (cases "map_recipients rs")
      case (Inl e)
      with Cons.prems x show ?thesis by simp
    next
      case (Inr ys)
      with Cons.prems x Cons.IH[OF Inr] map_recipient_Inr[OF x] show ?thesis by auto
    qed
  qed
qed

lemma SmsURI_init_recipients:
  assumes "SmsURI_init uri = Inr u"
  shows "\<exists>m rs. exec smsRegex uri = Some m \<and> caps m 1 = Some rs \<and>
           recipients u = map spec_recipient (split (of_char CHR '','') rs)"
proof (cases "exec smsRegex uri")
  case None
  with assms show ?thesis by (simp add: SmsURI_init_def)
next
  case (Some m)
  note m = this
  show ?thesis
  proof (cases "caps m 1")
    case None
    with assms m show ?thesis by (simp add: SmsURI_init_def)
  next
    case (Some rs)
    note rs = this
    show ?thesis
    proof (cases "map_recipients (split (of_char CHR '','') rs)")
      case (Inl e)
      with assms m rs show ?thesis by (simp add: SmsURI_init_def)
    next
      case (Inr recs)
      from assms m rs Inr have "recipients u = recs"
        by (cases "query_loop None (split (of_char CHR ''&'') (or_empty (caps m 2)))")
           (auto simp add: SmsURI_init_def split: if_splits)
      with map_recipients_spec[OF Inr] m rs show ?thesis by simp
    qed
  qed
qed

text \<open>
  Claim C6. For a recipient that the number pattern matches, with digits \<open>number\<close> and
  parameter text \<open>params\<close>, the mapped recipient is the value of the first \<open>phone-context\<close>
  parameter starting with \<open>+\<close> followed by the URL-unescaped digits, and the URL-unescaped
  digits alone when there is none; nothing else of the parameters remains. Every
  recipient of a parsed URI is this rewrite of its comma-separated piece.
  \<open>sms:5551234;phone-context=+1\<close> gives the one recipient \<open>+15551234\<close>, and an escaped
  space in the digits comes out as a space, with or without a \<open>phone-context\<close>.
\<close>

theorem phone_context_rewrite:
  "(exec numberRegex r = Some m \<longrightarrow>
      (\<exists>number params.
         caps m 1 = Some number \<and> caps m 2 = Some params \<and> r = number @ params \<and>
         map_recipient r = Inr (promoted number params))) \<and>
   (SmsURI_init uri = Inr u \<longrightarrow>
      (\<exists>m' rs. exec smsRegex uri = Some m' \<and> caps m' 1 = Some rs \<and>
         recipients u = map spec_recipient (split (of_char CHR '','') rs))) \<and>
   SmsURI_init (S ''sms:5551234;phone-context=+1'') =
     Inr \<lparr>recipients = [S ''+15551234''], body = None\<rparr> \<and>
   SmsURI_init (S ''sms:1%202;phone-context=+44'') =
     Inr \<lparr>recipients = [S ''+441 2''], body = None\<rparr> \<and>
   SmsURI_init (S ''sms:555%201234;a=b'') =
     Inr \<lparr>recipients = [S ''555 1234''], body = None\<rparr> \<and>
   promoted (S ''1%202'') (S '';x=y;phone-context=+44;phone-context=+1'') = S ''+441 2'' \<and>
   promoted (S ''555%201234'') (S '';phone-context=example.org'') = S ''555 1234''"
proof (intro conjI impI)
  assume "exec numberRegex r = Some m"
  from map_recipient_promoted[OF this]
  show "\<exists>number params.
         caps m 1 = Some number \<and> caps m 2 = Some params \<and> r = number @ params \<and>
         map_recipient r = Inr (promoted number params)"
    by blast
next
  assume "SmsURI_init uri = Inr u"
  then show "\<exists>m' rs. exec smsRegex uri = Some m' \<and> caps m' 1 = Some rs \<and>
         recipients u = map spec_recipient (split (of_char CHR '','') rs)"
    by (rule SmsURI_init_recipients)
next
  show "SmsURI_init (S ''sms:5551234;phone-context=+1'') =
     Inr \<lparr>recipients = [S ''+15551234''], body = None\<rparr>"
    by (rule phone_context_example)
next
  show "SmsURI_init (S ''sms:1%202;phone-context=+44'') =
     Inr \<lparr>recipients = [S ''+441 2''], body = None\<rparr>"
    by (simp add: uri_eval)
next
  show "SmsURI_init (S ''sms:555%201234;a=b'') =
     Inr \<lparr>recipients = [S ''555 1234''], body = None\<rparr>"
    by (simp add: uri_eval)
next
  show "promoted (S ''1%202'') (S '';x=y;phone-context=+44;phone-context=+1'') = S ''+441 2''"
    by (simp add: promoted_def S_def hexval_def)
next
  show "promoted (S ''555%201234'') (S '';phone-context=example.org'') = S ''555 1234''"
    by (simp add: promoted_def S_def hexval_def)
qed

text \<open>
  A recipient with an escaped space and a parameter before its \<open>phone-context\<close>, and a URI
  with two recipients, the first with an escaped space.
\<close>

theorem phone_context_rewrite_witness:
  "exec numberRegex (S ''1%202;a=b;phone-context=+44'') =
     Some \<lparr>pos = 27, rest = [],
           caps = [1 \<mapsto> S ''1%202'', 2 \<mapsto> S '';a=b;phone-context=+44'']\<rparr> \<and>
   map_recipient (S ''1%202;a=b;phone-context=+44'') = Inr (S ''+441 2'') \<and>
   SmsURI_init (S ''sms:11%201,222;phone-context=+44'') =
     Inr \<lparr>recipients = [S ''11 1'', S ''+44222''], body = None\<rparr> \<and>
   (\<exists>m' rs. exec smsRegex (S ''sms:11%201,222;phone-context=+44'') = Some m' \<and>
      caps m' 1 = Some rs \<and>
      [S ''11 1'', S ''+44222''] = map spec_recipient (split (of_char CHR '','') rs))"
proof -
  let ?m = "\<lparr>pos = 27, rest = [],
           caps = [1 \<mapsto> S ''1%202'', 2 \<mapsto> S '';a=b;phone-context=+44'']\<rparr>"
  let ?u = "\<lparr>recipients = [S ''11 1'', S ''+44222''], body = None\<rparr>"
  note t = phone_context_rewrite[of "S ''1%202;a=b;phone-context=+44''" ?m
      "S ''sms:11%201,222;phone-context=+44''" ?u]
  have ex: "exec numberRegex (S ''1%202;a=b;phone-context=+44'') = Some ?m"
    by (simp add: rx_eval rx_defs exec_def)
  from t ex
  obtain number params where c: "caps ?m 1 = Some number" "caps ?m 2 = Some params"
    and mr: "map_recipient (S ''1%202;a=b;phone-context=+44'') = Inr (promoted number params)"
    by blast
  from c have "number = S ''1%202''" "params = S '';a=b;phone-context=+44''"
    by simp_all
  with mr have a: "map_recipient (S ''1%202;a=b;phone-context=+44'') = Inr (S ''+441 2'')"
    by (simp add: promoted_def S_def hexval_def)
  have p: "SmsURI_init (S ''sms:11%201,222;phone-context=+44'') = Inr ?u"
    by (simp add: uri_eval)
  from t p have b: "\<exists>m' rs. exec smsRegex (S ''sms:11%201,222;phone-context=+44'') = Some m' \<and>
      caps m' 1 = Some rs \<and>
      recipients ?u = map spec_recipient (split (of_char CHR '','') rs)"
    by blast
  from ex a p b show ?thesis by simp
qed

end
